theory Spec2Isabelle
  imports Main "HOL-Library.Char_ord" "HOL-Library.List_Lexorder" "HOL-Library.AList"
begin

section \<open>Python values and built-ins used by the server\<close>

text \<open>
  Strings are \<^typ>\<open>string\<close>; one \<^typ>\<open>char\<close> stands for one code point of a
  Python \<open>str\<close>, those below 256, so \<open>length\<close> is Python's \<open>len\<close> and the
  lexicographic order of \<open>List_Lexorder\<close> over \<open>Char_ord\<close> is Python's \<open>str\<close> order.
  A \<open>str\<close> with a code point from 256 on is not part of the model.
\<close>

text \<open>
  \<open>str.isspace\<close> on one character: the ASCII white space, the separators
  \<open>0x1C\<close> to \<open>0x1F\<close>, \<open>U+0085\<close> and \<open>U+00A0\<close>. \<open>strip\<close> removes these.
\<close>

definition isspace :: "char \<Rightarrow> bool" where
  "isspace c = ((of_char c :: nat) \<in> {9, 10, 11, 12, 13, 28, 29, 30, 31, 32, 133, 160})"

definition strip :: "string \<Rightarrow> string" where
  "strip s = rev (dropWhile isspace (rev (dropWhile isspace s)))"

text \<open>
  \<open>str.lower\<close>: below 256 the upper-case letters are \<open>A\<close> to \<open>Z\<close> and \<open>U+00C0\<close> to
  \<open>U+00DE\<close> without the sign \<open>U+00D7\<close>; each has its lower-case form 32 further on.
\<close>

definition lower_char :: "char \<Rightarrow> char" where
  "lower_char c =
     (let n = (of_char c :: nat)
      in if (65 \<le> n \<and> n \<le> 90) \<or> (192 \<le> n \<and> n \<le> 222 \<and> n \<noteq> 215)
         then char_of (n + 32) else c)"

definition lower :: "string \<Rightarrow> string" where
  "lower s = map lower_char s"

definition isdigit :: "char \<Rightarrow> bool" where
  "isdigit c = (48 \<le> (of_char c :: nat) \<and> (of_char c :: nat) \<le> 57)"

text \<open>
  What \<open>json.loads\<close> returns. JSON numbers with a fraction or an exponent (Python
  floats) are not part of the model.
\<close>

datatype json =
    JNull
  | JBool bool
  | JInt int
  | JStr string
  | JArr "json list"
  | JObj "(string \<times> json) list"

text \<open>
  The exceptions the modelled code raises, each with its \<open>str(e)\<close>. The text is the
  source's own where the source raises; a built-in's text is abbreviated.
\<close>

datatype exn =
    ValueError string
  | TypeError string
  | AttributeError string
  | KeyError string
  | PermissionError string
  | OverflowError string
  | DatabaseError string
  | ConnectionClosed

fun exn_str :: "exn \<Rightarrow> string" where
  "exn_str (ValueError m) = m"
| "exn_str (TypeError m) = m"
| "exn_str (AttributeError m) = m"
| "exn_str (KeyError m) = m"
| "exn_str (PermissionError m) = m"
| "exn_str (OverflowError m) = m"
| "exn_str (DatabaseError m) = m"
| "exn_str ConnectionClosed = []"

text \<open>Truth value of a Python object, as \<open>or\<close>, \<open>not\<close> and \<open>if\<close> test it.\<close>

fun truthy :: "json \<Rightarrow> bool" where
  "truthy JNull = False"
| "truthy (JBool b) = b"
| "truthy (JInt n) = (n \<noteq> 0)"
| "truthy (JStr s) = (s \<noteq> [])"
| "truthy (JArr xs) = (xs \<noteq> [])"
| "truthy (JObj kvs) = (kvs \<noteq> [])"

definition py_or :: "json \<Rightarrow> json \<Rightarrow> json" where
  "py_or a b = (if truthy a then a else b)"

text \<open>\<open>msg.get(key)\<close> on a parsed JSON object: \<open>None\<close> for a missing key.\<close>

definition dict_get :: "(string \<times> json) list \<Rightarrow> string \<Rightarrow> json" where
  "dict_get kvs k = (case map_of kvs k of None \<Rightarrow> JNull | Some v \<Rightarrow> v)"

text \<open>\<open>x.strip()\<close>: only a \<open>str\<close> has the method.\<close>

fun py_strip :: "json \<Rightarrow> exn + string" where
  "py_strip (JStr s) = Inr (strip s)"
| "py_strip _ = Inl (AttributeError ''object has no attribute strip'')"

text \<open>
  \<open>int(s)\<close> for a string: surrounding white space, an optional sign, decimal digits
  with single underscores between them. The white space of \<open>int\<close> is not that of
  \<open>strip\<close>: the ASCII white space, \<open>U+0085\<close> and \<open>U+00A0\<close>, without the separators
  \<open>0x1C\<close> to \<open>0x1F\<close>. Below 256 the decimal digits are \<open>0\<close> to \<open>9\<close>.
\<close>

definition int_space :: "char \<Rightarrow> bool" where
  "int_space c = ((of_char c :: nat) \<in> {9, 10, 11, 12, 13, 32, 133, 160})"

fun digits_value :: "int \<Rightarrow> string \<Rightarrow> int option" where
  "digits_value acc [] = Some acc"
| "digits_value acc [c] =
     (if isdigit c then Some (acc * 10 + (int (of_char c) - 48)) else None)"
| "digits_value acc (c # d # cs) =
     (if isdigit c then
        (if d = CHR ''_'' then
           (case cs of [] \<Rightarrow> None
            | e # _ \<Rightarrow> if isdigit e then digits_value (acc * 10 + (int (of_char c) - 48)) cs
                        else None)
         else digits_value (acc * 10 + (int (of_char c) - 48)) (d # cs))
      else None)"

definition py_int_str :: "string \<Rightarrow> int option" where
  "py_int_str s =
     (case rev (dropWhile int_space (rev (dropWhile int_space s))) of
        [] \<Rightarrow> None
      | c # cs \<Rightarrow>
          if c = CHR ''-'' then (if cs = [] then None else map_option uminus (digits_value 0 cs))
          else if c = CHR ''+'' then (if cs = [] then None else digits_value 0 cs)
          else digits_value 0 (c # cs))"

text \<open>\<open>int(x)\<close> for a value taken from a frame.\<close>

fun py_int :: "json \<Rightarrow> exn + int" where
  "py_int (JInt n) = Inr n"
| "py_int (JBool b) = Inr (if b then 1 else 0)"
| "py_int (JStr s) =
     (case py_int_str s of
        None \<Rightarrow> Inl (ValueError ''invalid literal for int() with base 10'')
      | Some n \<Rightarrow> Inr n)"
| "py_int _ = Inl (TypeError ''int() argument must be a string, a bytes-like object or a real number'')"

text \<open>\<open>s.split(sep, maxsplit)\<close> for a one-character separator.\<close>

fun str_split :: "char \<Rightarrow> nat \<Rightarrow> string \<Rightarrow> string list" where
  "str_split sep 0 s = [s]"
| "str_split sep (Suc n) s =
     (case dropWhile (\<lambda>c. c \<noteq> sep) s of
        [] \<Rightarrow> [s]
      | _ # rest \<Rightarrow> takeWhile (\<lambda>c. c \<noteq> sep) s # str_split sep n rest)"

text \<open>\<open>s.encode("ascii")\<close> raises on a code point above 127.\<close>

definition encode_ascii :: "string \<Rightarrow> string option" where
  "encode_ascii s = (if list_all (\<lambda>c. (of_char c :: nat) < 128) s then Some s else None)"

section \<open>db.py: credentials\<close>

text \<open>
  The library primitives of \<open>hashlib\<close>, \<open>base64\<close> and \<open>secrets\<close> are parameters:
  \<open>None\<close> is a raised exception (\<open>binascii.Error\<close>, or \<open>ValueError\<close> of
  \<open>pbkdf2_hmac\<close> for an iteration count below 1).
\<close>

record crypto =
  pbkdf2_hmac :: "string \<Rightarrow> string \<Rightarrow> int \<Rightarrow> string option"
  urlsafe_b64decode :: "string \<Rightarrow> string option"
  urlsafe_b64encode :: "string \<Rightarrow> string"
  token_bytes :: "nat \<Rightarrow> string"

definition PBKDF2_ITERS_DEFAULT :: int where
  "PBKDF2_ITERS_DEFAULT = 200000"

text \<open>The inner \<open>pad\<close> of \<open>verify_password\<close>: \<open>s + "=" * (-len(s) % 4)\<close>.\<close>

definition pad :: "string \<Rightarrow> string" where
  "pad s = s @ replicate (nat ((- int (length s)) mod 4)) CHR ''=''"

text \<open>
  The body of the \<open>try\<close> in \<open>verify_password\<close>; \<open>Inl\<close> is an exception raised in
  it. The password arrives from the frame, so it is any JSON value: only a \<open>str\<close> has
  \<open>encode\<close>.
\<close>

fun encode_utf8 :: "json \<Rightarrow> exn + string" where
  "encode_utf8 (JStr s) = Inr s"
| "encode_utf8 _ = Inl (AttributeError ''object has no attribute encode'')"

definition verify_password_try :: "crypto \<Rightarrow> json \<Rightarrow> string \<Rightarrow> exn + bool" where
  "verify_password_try cr password stored =
     (case str_split CHR ''$'' 3 stored of
        [algo, iters_str, salt_b64, hash_b64] \<Rightarrow>
          if algo \<noteq> ''pbkdf2_sha256'' then Inr False
          else
            (case py_int_str iters_str of
               None \<Rightarrow> Inl (ValueError ''invalid literal for int() with base 10'')
             | Some iters \<Rightarrow>
                 (case Option.bind (encode_ascii (pad salt_b64)) (urlsafe_b64decode cr) of
                    None \<Rightarrow> Inl (ValueError ''salt'')
                  | Some salt \<Rightarrow>
                      (case Option.bind (encode_ascii (pad hash_b64)) (urlsafe_b64decode cr) of
                         None \<Rightarrow> Inl (ValueError ''hash'')
                       | Some expected \<Rightarrow>
                           (case encode_utf8 password of
                              Inl e \<Rightarrow> Inl e
                            | Inr pw \<Rightarrow>
                                (case pbkdf2_hmac cr pw salt iters of
                                   None \<Rightarrow> Inl (ValueError ''iterations'')
                                 | Some dk \<Rightarrow> Inr (dk = expected))))))
      | _ \<Rightarrow> Inl (ValueError ''not enough values to unpack (expected 4)''))"

text \<open>\<open>verify_password\<close>: the \<open>try\<close> with its \<open>except Exception: return False\<close>.\<close>

definition verify_password :: "crypto \<Rightarrow> json \<Rightarrow> string \<Rightarrow> bool" where
  "verify_password cr password stored =
     (case verify_password_try cr password stored of Inl _ \<Rightarrow> False | Inr b \<Rightarrow> b)"

text \<open>
  \<open>hash_password\<close>; \<open>n\<close> numbers the draw of \<open>secrets.token_bytes(16)\<close>. A frame's
  password is any JSON value: \<open>isinstance(password, str)\<close> fails for the others.
\<close>

definition hash_password :: "crypto \<Rightarrow> nat \<Rightarrow> json \<Rightarrow> exn + string" where
  "hash_password cr n password =
     (case password of
        JStr pw \<Rightarrow>
          if pw = [] then Inl (ValueError ''Password must be non-empty string'')
          else
            (case pbkdf2_hmac cr pw (token_bytes cr n) PBKDF2_ITERS_DEFAULT of
               None \<Rightarrow> Inl (ValueError ''iterations'')
             | Some dk \<Rightarrow>
                 Inr (''pbkdf2_sha256$200000$''
                      @ rev (dropWhile (\<lambda>c. c = CHR ''='') (rev (urlsafe_b64encode cr (token_bytes cr n))))
                      @ ''$''
                      @ rev (dropWhile (\<lambda>c. c = CHR ''='') (rev (urlsafe_b64encode cr dk)))))
      | _ \<Rightarrow> Inl (ValueError ''Password must be non-empty string''))"


section \<open>db.py: the tables\<close>

record user_row =
  u_id :: int
  u_username :: string
  u_password_hash :: string
  u_is_admin :: bool
  u_is_active :: bool
  u_created_at :: string

text \<open>
  A row of \<open>messages\<close>. \<open>insert_message\<close> stores the \<open>sticker\<close> it was given
  unless the kind is sticker, so the column holds a JSON value (\<open>JNull\<close> is \<open>None\<close>).
\<close>

record message_row =
  m_id :: int
  m_room :: string
  m_user_id :: int
  m_kind :: string
  m_sticker :: json
  m_reply_to :: "int option"
  m_content :: string
  m_created_at :: string

record database =
  users :: "user_row list"
  messages :: "message_row list"

text \<open>
  What the process reads from outside: the library primitives; the clock, by the
  number of rows already in the table, as \<open>now.isoformat()\<close> (\<open>now_iso\<close>) and as
  the text that \<open>fetch_history\<close> makes of the \<open>created_at\<close> the database gives back for
  it (\<open>now_column\<close>: SQLite keeps no offset); whether the database refuses an INSERT
  into \<open>messages\<close> (a value the driver cannot bind, an integer beyond the column's
  range); and whether the \<open>n\<close>-th call of \<open>send\<close> of the run, on connection \<open>w\<close>,
  raises.
\<close>

type_synonym conn = nat

record env =
  crypto_of :: crypto
  now_iso :: "nat \<Rightarrow> string"
  now_column :: "nat \<Rightarrow> string"
  execute_raises :: "message_row \<Rightarrow> bool"
  send_raises :: "nat \<Rightarrow> conn \<Rightarrow> bool"

text \<open>The primary key an INSERT assigns: one more than the largest in the table.\<close>

definition next_id :: "int list \<Rightarrow> int" where
  "next_id ids = fold max ids 0 + 1"

definition get_user_by_username :: "database \<Rightarrow> string \<Rightarrow> user_row option" where
  "get_user_by_username d username = find (\<lambda>u. u_username u = username) (users d)"

text \<open>\<open>len(x)\<close> for a value taken from a frame.\<close>

fun py_len :: "json \<Rightarrow> exn + nat" where
  "py_len (JStr s) = Inr (length s)"
| "py_len (JArr xs) = Inr (length xs)"
| "py_len (JObj kvs) = Inr (length kvs)"
| "py_len _ = Inl (TypeError ''object has no len()'')"

text \<open>
  \<open>create_user\<close>. The handler passes a stripped \<open>str\<close> as \<open>username\<close> and the
  frame's value as \<open>password\<close>. The unique index on \<open>username\<close> makes the INSERT raise
  \<open>IntegrityError\<close>.
\<close>

definition create_user ::
  "env \<Rightarrow> database \<Rightarrow> string \<Rightarrow> json \<Rightarrow> bool \<Rightarrow> bool \<Rightarrow> exn + (int \<times> database)" where
  "create_user env d username password is_admin is_active =
     (let u = strip username in
      if \<not> (3 \<le> length u \<and> length u \<le> 32) \<or> list_ex isspace u
      then Inl (ValueError ''Username must be 3..32 chars, no spaces'')
      else
        (case py_len (py_or password (JStr [])) of
           Inl e \<Rightarrow> Inl e
         | Inr n \<Rightarrow>
             if n < 4 then Inl (ValueError ''Password must be at least 4 chars'')
             else
               (case hash_password (crypto_of env) (length (users d)) password of
                  Inl e \<Rightarrow> Inl e
                | Inr h \<Rightarrow>
                    if list_ex (\<lambda>r. u_username r = u) (users d)
                    then Inl (ValueError ''Username already exists'')
                    else
                      (let pk = next_id (map u_id (users d));
                           row = \<lparr>u_id = pk, u_username = u, u_password_hash = h,
                                  u_is_admin = is_admin, u_is_active = is_active,
                                  u_created_at = now_column env (length (users d))\<rparr>
                       in Inr (pk, d\<lparr>users := users d @ [row]\<rparr>)))))"

definition authenticate :: "crypto \<Rightarrow> database \<Rightarrow> string \<Rightarrow> json \<Rightarrow> user_row option" where
  "authenticate cr d username password =
     (case get_user_by_username d (strip username) of
        None \<Rightarrow> None
      | Some u \<Rightarrow>
          if \<not> u_is_active u then None
          else if \<not> verify_password cr (py_or password (JStr [])) (u_password_hash u) then None
          else Some u)"

text \<open>
  \<open>insert_message\<close>: \<open>Inl\<close> is the exception it raises, \<open>Inr\<close> the dict it returns and
  the table after the INSERT. The dict has the columns of the inserted row but \<open>room\<close>,
  with \<open>now.isoformat()\<close> as \<open>created_at\<close>, where the row has what the column keeps.
  \<open>kind\<close> is a \<open>str\<close> at the only call; \<open>content\<close> and \<open>sticker\<close> come from the frame.
  \<open>coerce_kind\<close> is its first step: the kind in lower case without surrounding
  white space, and \<open>text\<close> for any kind that is neither \<open>text\<close> nor \<open>sticker\<close>.
  \<open>insert_values\<close> is the row of its INSERT.
\<close>

definition coerce_kind :: "string \<Rightarrow> string" where
  "coerce_kind kind =
     (let kind1 = lower (strip (if kind = [] then ''text'' else kind))
      in if kind1 \<noteq> ''text'' \<and> kind1 \<noteq> ''sticker'' then ''text'' else kind1)"

definition insert_values ::
  "env \<Rightarrow> database \<Rightarrow> int \<Rightarrow> string \<Rightarrow> string \<Rightarrow> json \<Rightarrow> int option \<Rightarrow> message_row" where
  "insert_values env d user_id kind2 content1 sticker1 reply_to =
     \<lparr>m_id = next_id (map m_id (messages d)), m_room = ''general'',
      m_user_id = user_id, m_kind = kind2, m_sticker = sticker1,
      m_reply_to = reply_to,
      m_content = (if kind2 = ''text'' then content1 else []),
      m_created_at = now_column env (length (messages d))\<rparr>"

definition insert_message ::
  "env \<Rightarrow> database \<Rightarrow> int \<Rightarrow> json \<Rightarrow> string \<Rightarrow> json \<Rightarrow> int option
     \<Rightarrow> exn + (message_row \<times> database)" where
  "insert_message env d user_id content kind sticker reply_to =
     (let kind2 = coerce_kind kind
      in
      case py_strip (py_or content (JStr [])) of
        Inl e \<Rightarrow> Inl e
      | Inr content1 \<Rightarrow>
          if kind2 = ''text'' \<and> content1 = [] then Inl (ValueError ''Empty message'')
          else if length content1 > 2000
          then Inl (ValueError ''Message is too long (max 2000 chars)'')
          else
            (case (if kind2 = ''sticker''
                   then (case py_strip (py_or sticker (JStr [])) of
                           Inl e \<Rightarrow> Inl e
                         | Inr s \<Rightarrow> if s = [] then Inl (ValueError ''Sticker is empty'')
                                    else Inr (JStr s))
                   else Inr sticker) of
               Inl e \<Rightarrow> Inl e
             | Inr sticker1 \<Rightarrow>
                 (let row = insert_values env d user_id kind2 content1 sticker1 reply_to
                  in if execute_raises env row then Inl (DatabaseError ''INSERT failed'')
                     else Inr (row\<lparr>m_created_at := now_iso env (length (messages d))\<rparr>,
                               d\<lparr>messages := messages d @ [row]\<rparr>))))"

text \<open>
  A message as the server sends it: the dict \<open>full\<close> of a \<open>message\<close> event and each
  entry of a \<open>history\<close> event have the same keys.
\<close>

record message =
  msg_id :: int
  msg_user_id :: int
  msg_username :: string
  msg_kind :: string
  msg_sticker :: json
  msg_reply_to :: "int option"
  msg_content :: string
  msg_created_at :: string

definition history_entry :: "message_row \<times> user_row \<Rightarrow> message" where
  "history_entry r =
     (case r of (m, u) \<Rightarrow>
        \<lparr>msg_id = m_id m, msg_user_id = m_user_id m, msg_username = u_username u,
         msg_kind = (if m_kind m = [] then ''text'' else m_kind m),
         msg_sticker = m_sticker m, msg_reply_to = m_reply_to m,
         msg_content = m_content m, msg_created_at = m_created_at m\<rparr>)"

text \<open>
  \<open>fetch_history\<close>: the join of \<open>messages\<close> with \<open>users\<close> on the user id, the rows of
  room general, \<open>ORDER BY id DESC LIMIT limit\<close>, then reversed.
\<close>

definition history_rows :: "database \<Rightarrow> (message_row \<times> user_row) list" where
  "history_rows d =
     filter (\<lambda>r. m_room (fst r) = ''general'')
       (concat (map (\<lambda>m. map (Pair m) (filter (\<lambda>u. u_id u = m_user_id m) (users d)))
                    (messages d)))"

definition fetch_history :: "database \<Rightarrow> int \<Rightarrow> message list" where
  "fetch_history d limit =
     (let limit1 = max 1 (min 200 limit);
          rows = take (nat limit1) (rev (sort_key (\<lambda>r. m_id (fst r)) (history_rows d)))
      in map history_entry (rev rows))"


section \<open>server.py: registry, presence and broadcast\<close>

text \<open>
  A value of \<open>SESSIONS\<close>. The handler stores only two shapes of dict:
  \<open>{"authed": False}\<close>, and \<open>authed\<close> true with \<open>user_id\<close>, \<open>username\<close> and
  \<open>is_admin\<close>.
\<close>

datatype session = Unauthed | Authed int string bool

fun authed :: "session \<Rightarrow> bool" where
  "authed Unauthed = False"
| "authed (Authed uid name adm) = True"

fun is_admin :: "session \<Rightarrow> bool" where
  "is_admin Unauthed = False"
| "is_admin (Authed uid name adm) = adm"

text \<open>What the server sends: one constructor for each dict it passes to \<open>jdump\<close>.\<close>

datatype event =
    Ev_error string
  | Ev_send_failed exn
  | Ev_unknown_type json
  | Ev_login_error string
  | Ev_login_ok string bool
  | Ev_history "message list"
  | Ev_message message
  | Ev_presence "string list"
  | Ev_admin_create_user_error string
  | Ev_admin_create_user_ok string

text \<open>The \<open>type\<close> key of each: the three kinds of \<open>error\<close> differ in their message only.\<close>

fun wire_type :: "event \<Rightarrow> string" where
  "wire_type (Ev_error m) = ''error''"
| "wire_type (Ev_send_failed e) = ''error''"
| "wire_type (Ev_unknown_type t) = ''error''"
| "wire_type (Ev_login_error m) = ''login_error''"
| "wire_type (Ev_login_ok name adm) = ''login_ok''"
| "wire_type (Ev_history ms) = ''history''"
| "wire_type (Ev_message m) = ''message''"
| "wire_type (Ev_presence names) = ''presence''"
| "wire_type (Ev_admin_create_user_error m) = ''admin_create_user_error''"
| "wire_type (Ev_admin_create_user_ok name) = ''admin_create_user_ok''"

text \<open>
  The process state: the globals \<open>SESSIONS\<close> (a dict, in insertion order) and
  \<open>CONNS\<close> (a set, as the list of its members), the database, and \<open>sent\<close>, the calls
  of \<open>send\<close> made so far, each with the connection and the payload, whether or not the
  call raised. One frame is handled at a time: the handlers of other connections that
  asyncio may run at an \<open>await\<close> are not part of the model.
\<close>

record server =
  SESSIONS :: "(conn \<times> session) list"
  CONNS :: "conn list"
  db :: database
  sent :: "(conn \<times> event) list"

text \<open>
  \<open>online_usernames\<close>. \<open>set(names)\<close> is the list without its repetitions, in the
  order \<open>remdups\<close> leaves; Python leaves the order of a set open, and after the stable
  sort it shows only between names whose lower-case forms are equal.
\<close>

definition online_names :: "(conn \<times> session) list \<Rightarrow> string list" where
  "online_names ss =
     concat (map (\<lambda>p. case snd p of
                         Unauthed \<Rightarrow> []
                       | Authed uid name adm \<Rightarrow> if name \<noteq> [] then [name] else []) ss)"

definition online_usernames :: "server \<Rightarrow> string list" where
  "online_usernames st = sort_key lower (remdups (online_names (SESSIONS st)))"

text \<open>The registry updates of \<open>handler\<close> and \<open>cleanup_ws\<close>.\<close>

definition register :: "conn \<Rightarrow> server \<Rightarrow> server" where
  "register ws st =
     st\<lparr>CONNS := (if ws \<in> set (CONNS st) then CONNS st else CONNS st @ [ws]),
        SESSIONS := AList.update ws Unauthed (SESSIONS st)\<rparr>"

definition set_session :: "conn \<Rightarrow> user_row \<Rightarrow> server \<Rightarrow> server" where
  "set_session ws u st =
     st\<lparr>SESSIONS := AList.update ws (Authed (u_id u) (u_username u) (u_is_admin u)) (SESSIONS st)\<rparr>"

definition unregister :: "conn \<Rightarrow> server \<Rightarrow> server" where
  "unregister ws st =
     st\<lparr>CONNS := removeAll ws (CONNS st), SESSIONS := AList.delete ws (SESSIONS st)\<rparr>"

text \<open>
  The first loop of \<open>broadcast\<close>: \<open>send\<close> on every connection of the snapshot
  \<open>list(CONNS)\<close>; a connection whose \<open>send\<close> raises is appended to \<open>dead\<close>.
\<close>

fun send_each :: "env \<Rightarrow> event \<Rightarrow> conn list \<Rightarrow> server \<Rightarrow> conn list \<times> server" where
  "send_each env ev [] st = ([], st)"
| "send_each env ev (w # ws) st =
     (let raised = send_raises env (length (sent st)) w;
          r = send_each env ev ws (st\<lparr>sent := sent st @ [(w, ev)]\<rparr>)
      in (if raised then w # fst r else fst r, snd r))"

text \<open>
  \<open>broadcast\<close>, \<open>broadcast_presence\<close> and \<open>cleanup_ws\<close> call each other;
  \<open>cleanup_dead\<close> is the second loop of \<open>broadcast\<close>. The first argument bounds the
  depth of \<open>broadcast\<close> inside \<open>broadcast\<close>: \<open>None\<close> is a run that needs more.
\<close>

fun broadcast :: "nat \<Rightarrow> env \<Rightarrow> event \<Rightarrow> server \<Rightarrow> server option"
  and cleanup_dead :: "nat \<Rightarrow> env \<Rightarrow> conn list \<Rightarrow> server \<Rightarrow> server option"
  and cleanup_ws :: "nat \<Rightarrow> env \<Rightarrow> conn \<Rightarrow> server \<Rightarrow> server option"
  and broadcast_presence :: "nat \<Rightarrow> env \<Rightarrow> server \<Rightarrow> server option"
where
  "broadcast 0 env ev st = None"
| "broadcast (Suc k) env ev st =
     (case send_each env ev (CONNS st) st of (dead, st1) \<Rightarrow> cleanup_dead k env dead st1)"
| "cleanup_dead k env [] st = Some st"
| "cleanup_dead k env (w # ws) st =
     (case cleanup_ws k env w st of None \<Rightarrow> None | Some st1 \<Rightarrow> cleanup_dead k env ws st1)"
| "cleanup_ws k env ws st = broadcast_presence k env (unregister ws st)"
| "broadcast_presence k env st = broadcast k env (Ev_presence (online_usernames st)) st"

section \<open>server.py: the handler\<close>

text \<open>How the body of the \<open>async for\<close> ends: \<open>continue\<close>, or an exception leaves it.\<close>

datatype outcome = Continue | Raise exn

text \<open>\<open>send_json\<close> on the handler's own connection: an exception of \<open>send\<close> is not caught.\<close>

definition send_json :: "env \<Rightarrow> conn \<Rightarrow> event \<Rightarrow> server \<Rightarrow> outcome \<times> server" where
  "send_json env ws ev st =
     (if send_raises env (length (sent st)) ws then Raise ConnectionClosed else Continue,
      st\<lparr>sent := sent st @ [(ws, ev)]\<rparr>)"

definition require_authed :: "server \<Rightarrow> conn \<Rightarrow> exn + session" where
  "require_authed st ws =
     (case map_of (SESSIONS st) ws of
        None \<Rightarrow> Inl (PermissionError ''Not authenticated'')
      | Some sess \<Rightarrow>
          if \<not> authed sess then Inl (PermissionError ''Not authenticated'') else Inr sess)"

text \<open>The branch \<open>mtype == "login"\<close>.\<close>

definition on_login ::
  "nat \<Rightarrow> env \<Rightarrow> conn \<Rightarrow> (string \<times> json) list \<Rightarrow> server \<Rightarrow> (outcome \<times> server) option" where
  "on_login k env ws msg st =
     (case py_strip (py_or (dict_get msg ''username'') (JStr [])) of
        Inl e \<Rightarrow> Some (Raise e, st)
      | Inr username \<Rightarrow>
          (case authenticate (crypto_of env) (db st) username
                  (py_or (dict_get msg ''password'') (JStr [])) of
             None \<Rightarrow>
               Some (send_json env ws
                       (Ev_login_error ''Invalid credentials or inactive user'') st)
           | Some u \<Rightarrow>
               (case send_json env ws (Ev_login_ok (u_username u) (u_is_admin u))
                       (set_session ws u st) of
                  (Raise e, st1) \<Rightarrow> Some (Raise e, st1)
                | (Continue, st1) \<Rightarrow>
                    (case send_json env ws (Ev_history (fetch_history (db st1) 80)) st1 of
                       (Raise e, st2) \<Rightarrow> Some (Raise e, st2)
                     | (Continue, st2) \<Rightarrow>
                         map_option (Pair Continue) (broadcast_presence k env st2)))))"

text \<open>The dict \<open>full\<close> of the branch \<open>mtype == "send"\<close>.\<close>

definition full_message :: "int \<Rightarrow> string \<Rightarrow> message_row \<Rightarrow> message" where
  "full_message uid name base =
     \<lparr>msg_id = m_id base, msg_user_id = uid, msg_username = name,
      msg_kind = m_kind base, msg_sticker = m_sticker base,
      msg_reply_to = m_reply_to base, msg_content = m_content base,
      msg_created_at = m_created_at base\<rparr>"

text \<open>
  The \<open>try\<close> of the branch: the arguments of \<open>insert_message\<close> are evaluated first,
  \<open>int(reply_to)\<close> among them. \<open>sess["user_id"]\<close> is there for every session that
  \<open>require_authed\<close> returns.
\<close>

definition send_try ::
  "env \<Rightarrow> database \<Rightarrow> int \<Rightarrow> json \<Rightarrow> string \<Rightarrow> json \<Rightarrow> json
     \<Rightarrow> exn + (message_row \<times> database)" where
  "send_try env d uid content kind sticker reply_to =
     (case (if reply_to \<noteq> JNull then map_sum id Some (py_int reply_to) else Inr None) of
        Inl e \<Rightarrow> Inl e
      | Inr r \<Rightarrow> insert_message env d uid content kind sticker r)"

definition on_send ::
  "nat \<Rightarrow> env \<Rightarrow> conn \<Rightarrow> session \<Rightarrow> (string \<times> json) list \<Rightarrow> server
     \<Rightarrow> (outcome \<times> server) option" where
  "on_send k env ws sess msg st =
     (case py_strip (py_or (dict_get msg ''kind'') (JStr ''text'')) of
        Inl e \<Rightarrow> Some (Raise e, st)
      | Inr kind0 \<Rightarrow>
          (case sess of
             Unauthed \<Rightarrow> Some (send_json env ws (Ev_send_failed (KeyError ''user_id'')) st)
           | Authed uid name adm \<Rightarrow>
               (case send_try env (db st) uid (py_or (dict_get msg ''content'') (JStr []))
                       (lower kind0) (dict_get msg ''sticker'') (dict_get msg ''reply_to'') of
                  Inl e \<Rightarrow> Some (send_json env ws (Ev_send_failed e) st)
                | Inr (base, d) \<Rightarrow>
                    map_option (Pair Continue)
                      (broadcast k env (Ev_message (full_message uid name base))
                         (st\<lparr>db := d\<rparr>)))))"

text \<open>
  The branch \<open>mtype == "admin_create_user"\<close>. The \<open>send_json\<close> of the success reply
  is inside the \<open>try\<close>: when it raises, the \<open>except\<close> sends the error reply.
\<close>

definition on_admin_create_user ::
  "env \<Rightarrow> conn \<Rightarrow> session \<Rightarrow> (string \<times> json) list \<Rightarrow> server \<Rightarrow> outcome \<times> server" where
  "on_admin_create_user env ws sess msg st =
     (if \<not> is_admin sess
      then send_json env ws (Ev_admin_create_user_error ''Admin only'') st
      else
        (case py_strip (py_or (dict_get msg ''username'') (JStr [])) of
           Inl e \<Rightarrow> (Raise e, st)
         | Inr new_username \<Rightarrow>
             (case create_user env (db st) new_username
                     (py_or (dict_get msg ''password'') (JStr []))
                     (truthy (dict_get msg ''is_admin'')) True of
                Inl e \<Rightarrow> send_json env ws (Ev_admin_create_user_error (exn_str e)) st
              | Inr (pk, d) \<Rightarrow>
                  (case send_json env ws (Ev_admin_create_user_ok new_username) (st\<lparr>db := d\<rparr>) of
                     (Raise e, st1) \<Rightarrow>
                       send_json env ws (Ev_admin_create_user_error (exn_str e)) st1
                   | (Continue, st1) \<Rightarrow> (Continue, st1)))))"

text \<open>
  One round of the \<open>async for\<close>: \<open>raw\<close> is what \<open>json.loads\<close> makes of the frame,
  \<open>None\<close> when it raises. A parsed value that is no dict has no \<open>get\<close>.
\<close>

definition handle_frame ::
  "nat \<Rightarrow> env \<Rightarrow> conn \<Rightarrow> json option \<Rightarrow> server \<Rightarrow> (outcome \<times> server) option" where
  "handle_frame k env ws raw st =
     (case raw of
        None \<Rightarrow> Some (send_json env ws (Ev_error ''Invalid JSON'') st)
      | Some (JObj msg) \<Rightarrow>
          (let mtype = dict_get msg ''type'' in
           if mtype = JStr ''login'' then on_login k env ws msg st
           else
             (case require_authed st ws of
                Inl e \<Rightarrow> Some (send_json env ws (Ev_error ''Please login first'') st)
              | Inr sess \<Rightarrow>
                  if mtype = JStr ''send'' then on_send k env ws sess msg st
                  else if mtype = JStr ''who_online''
                  then Some (send_json env ws (Ev_presence (online_usernames st)) st)
                  else if mtype = JStr ''admin_create_user''
                  then Some (on_admin_create_user env ws sess msg st)
                  else if mtype = JStr ''join'' \<or> mtype = JStr ''history_room''
                  then Some (send_json env ws
                               (Ev_error ''Rooms are disabled. Single chat only.'') st)
                  else Some (send_json env ws (Ev_unknown_type mtype) st)))
      | Some other \<Rightarrow> Some (Raise (AttributeError ''object has no attribute get''), st))"

text \<open>
  \<open>handler\<close>: the connection is registered, the frames are handled until one raises or
  the connection ends, and the \<open>finally\<close> runs \<open>cleanup_ws\<close>. \<open>ConnectionClosed\<close> is
  swallowed; any other exception leaves \<open>handler\<close> after the cleanup.
\<close>

fun frames_loop ::
  "nat \<Rightarrow> env \<Rightarrow> conn \<Rightarrow> json option list \<Rightarrow> server \<Rightarrow> (outcome \<times> server) option" where
  "frames_loop k env ws [] st = Some (Continue, st)"
| "frames_loop k env ws (raw # raws) st =
     (case handle_frame k env ws raw st of
        None \<Rightarrow> None
      | Some (Raise e, st1) \<Rightarrow> Some (Raise e, st1)
      | Some (Continue, st1) \<Rightarrow> frames_loop k env ws raws st1)"

definition handler ::
  "nat \<Rightarrow> env \<Rightarrow> conn \<Rightarrow> json option list \<Rightarrow> server \<Rightarrow> (outcome \<times> server) option" where
  "handler k env ws raws st =
     (case frames_loop k env ws raws (register ws st) of
        None \<Rightarrow> None
      | Some (out, st1) \<Rightarrow>
          map_option (Pair (if out = Raise ConnectionClosed then Continue else out))
            (cleanup_ws k env ws st1))"


section \<open>Notions for the statements\<close>

text \<open>
  \<open>shrunk D st st'\<close>: the registry of \<open>st'\<close> is that of \<open>st\<close> without the
  connections of \<open>D\<close>, and the database is the same.
\<close>

definition shrunk :: "conn set \<Rightarrow> server \<Rightarrow> server \<Rightarrow> bool" where
  "shrunk D st st' \<longleftrightarrow>
     CONNS st' = filter (\<lambda>w. w \<notin> D) (CONNS st) \<and>
     SESSIONS st' = filter (\<lambda>p. fst p \<notin> D) (SESSIONS st) \<and>
     db st' = db st"

definition presence_only :: "(conn \<times> event) list \<Rightarrow> bool" where
  "presence_only new = list_all (\<lambda>p. wire_type (snd p) = ''presence'') new"

definition ends_presence :: "server \<Rightarrow> bool" where
  "ends_presence st \<longleftrightarrow>
     (\<exists>pre. sent st = pre @ map (\<lambda>w. (w, Ev_presence (online_usernames st))) (CONNS st))"


text \<open>
  The operations that reach a state of the registry, from a new database and no
  connection: \<open>Register\<close> is what \<open>handler\<close> does when a connection is accepted;
  \<open>Login\<close> the state change of its \<open>login\<close> branch, \<open>authenticate\<close> and, when that
  returns a row, the assignment to \<open>SESSIONS\<close>; \<open>Unregister\<close> the two removals of
  \<open>cleanup_ws\<close>; \<open>Create_user\<close> a call of \<open>create_user\<close>, the only INSERT into
  \<open>users\<close> (the first start and the \<open>admin_create_user\<close> branch both make it).
\<close>

datatype sys_op =
    Register conn
  | Login conn string json
  | Unregister conn
  | Create_user string json bool

fun apply_op :: "env \<Rightarrow> sys_op \<Rightarrow> server \<Rightarrow> server" where
  "apply_op env (Register ws) st = register ws st"
| "apply_op env (Login ws username password) st =
     (case authenticate (crypto_of env) (db st) username password of
        None \<Rightarrow> st
      | Some u \<Rightarrow> set_session ws u st)"
| "apply_op env (Unregister ws) st = unregister ws st"
| "apply_op env (Create_user username password adm) st =
     (case create_user env (db st) username password adm True of
        Inl e \<Rightarrow> st
      | Inr (pk, d) \<Rightarrow> st\<lparr>db := d\<rparr>)"

definition new_server :: server where
  "new_server = \<lparr>SESSIONS = [], CONNS = [], db = \<lparr>users = [], messages = []\<rparr>, sent = []\<rparr>"

definition run_ops :: "env \<Rightarrow> sys_op list \<Rightarrow> server" where
  "run_ops env ops = foldl (\<lambda>st op. apply_op env op st) new_server ops"

text \<open>
  For a \<open>send\<close> frame: \<open>text_of x\<close> is \<open>x or ""\<close> when that is a \<open>str\<close>;
  \<open>stripped x\<close> is \<open>(x or "").strip()\<close>; \<open>reply_of x\<close> is \<open>int(x)\<close> for an \<open>x\<close> that
  is not \<open>None\<close>; \<open>send_row\<close> is the row a frame's values make. \<open>send_refused\<close> lists
  what makes the branch answer with an error: a \<open>reply_to\<close> that \<open>int\<close> cannot
  convert, a content that is no \<open>str\<close>, an empty text, a content over 2000 characters,
  a sticker that is no \<open>str\<close> or is empty, a row the database refuses.
\<close>

definition text_of :: "json \<Rightarrow> string option" where
  "text_of x = (case py_or x (JStr []) of JStr s \<Rightarrow> Some s | _ \<Rightarrow> None)"

definition stripped :: "json \<Rightarrow> string" where
  "stripped x = (case text_of x of None \<Rightarrow> [] | Some s \<Rightarrow> strip s)"

definition reply_of :: "json \<Rightarrow> int option" where
  "reply_of x = (case py_int x of Inl e \<Rightarrow> None | Inr n \<Rightarrow> Some n)"

definition send_row :: "env \<Rightarrow> database \<Rightarrow> int \<Rightarrow> string \<Rightarrow> json \<Rightarrow> json \<Rightarrow> json \<Rightarrow> message_row" where
  "send_row env d uid kind content sticker reply_to =
     insert_values env d uid (coerce_kind kind) (stripped content)
       (if coerce_kind kind = ''sticker'' then JStr (stripped sticker) else sticker)
       (if reply_to = JNull then None else reply_of reply_to)"

definition send_refused :: "env \<Rightarrow> database \<Rightarrow> int \<Rightarrow> string \<Rightarrow> json \<Rightarrow> json \<Rightarrow> json \<Rightarrow> bool" where
  "send_refused env d uid kind content sticker reply_to \<longleftrightarrow>
     (reply_to \<noteq> JNull \<and> reply_of reply_to = None) \<or>
     text_of content = None \<or>
     (coerce_kind kind = ''text'' \<and> stripped content = []) \<or>
     2000 < length (stripped content) \<or>
     (coerce_kind kind = ''sticker'' \<and> (text_of sticker = None \<or> stripped sticker = [])) \<or>
     execute_raises env (send_row env d uid kind content sticker reply_to)"

text \<open>
  What \<open>create_user\<close> keeps true of the table and of the sessions made from it: no
  username is empty.
\<close>

definition named_users :: "database \<Rightarrow> bool" where
  "named_users d = list_all (\<lambda>u. u_username u \<noteq> []) (users d)"

definition named_sessions :: "server \<Rightarrow> bool" where
  "named_sessions st =
     list_all (\<lambda>p. case snd p of Unauthed \<Rightarrow> True | Authed uid name adm \<Rightarrow> name \<noteq> [])
       (SESSIONS st)"

text \<open>What a run of the handler left behind, for the closed instances.\<close>

definition session_after :: "conn \<Rightarrow> (outcome \<times> server) option \<Rightarrow> session option" where
  "session_after ws r = (case r of None \<Rightarrow> None | Some (out, st) \<Rightarrow> map_of (SESSIONS st) ws)"

definition sent_after :: "(outcome \<times> server) option \<Rightarrow> (conn \<times> event) list" where
  "sent_after r = (case r of None \<Rightarrow> [] | Some (out, st) \<Rightarrow> sent st)"

text \<open>Example values for the closed instances below.\<close>

definition example_crypto :: crypto where
  "example_crypto =
     \<lparr>pbkdf2_hmac = (\<lambda>pw salt n. if n < 1 then None else Some (pw @ salt)),
      urlsafe_b64decode = Some,
      urlsafe_b64encode = (\<lambda>s. s),
      token_bytes = (\<lambda>n. ''0123456789abcdef'')\<rparr>"

text \<open>What SQLite refuses: an integer beyond 64 bits, an array or an object.\<close>

definition example_refuses :: "message_row \<Rightarrow> bool" where
  "example_refuses r =
     ((case m_reply_to r of
         None \<Rightarrow> False
       | Some n \<Rightarrow> n < - 9223372036854775808 \<or> 9223372036854775808 \<le> n) \<or>
      (case m_sticker r of JArr xs \<Rightarrow> True | JObj kvs \<Rightarrow> True | _ \<Rightarrow> False))"

definition example_env :: env where
  "example_env =
     \<lparr>crypto_of = example_crypto,
      now_iso = (\<lambda>n. ''2024-01-06T00:00:00+00:00''),
      now_column = (\<lambda>n. ''2024-01-06T00:00:00''),
      execute_raises = example_refuses,
      send_raises = (\<lambda>n w. w = 2)\<rparr>"

definition example_db :: database where
  "example_db =
     \<lparr>users =
        [\<lparr>u_id = 1, u_username = ''alice'', u_password_hash = ''pbkdf2_sha256$1$abcd$pw12abcd'',
          u_is_admin = False, u_is_active = True, u_created_at = ''2024-01-01''\<rparr>,
         \<lparr>u_id = 2, u_username = ''Bob'', u_password_hash = ''pbkdf2_sha256$1$abcd$pw34abcd'',
          u_is_admin = True, u_is_active = True, u_created_at = ''2024-01-02''\<rparr>],
      messages =
        [\<lparr>m_id = 1, m_room = ''general'', m_user_id = 1, m_kind = ''text'', m_sticker = JNull,
          m_reply_to = None, m_content = ''one'', m_created_at = ''2024-01-03''\<rparr>,
         \<lparr>m_id = 3, m_room = ''general'', m_user_id = 1, m_kind = ''text'', m_sticker = JNull,
          m_reply_to = Some 1, m_content = ''three'', m_created_at = ''2024-01-05''\<rparr>,
         \<lparr>m_id = 2, m_room = ''general'', m_user_id = 2, m_kind = ''sticker'',
          m_sticker = JStr ''smile'', m_reply_to = None, m_content = [],
          m_created_at = ''2024-01-04''\<rparr>]\<rparr>"

definition example_login :: "(string \<times> json) list" where
  "example_login =
     [(''type'', JStr ''login''), (''username'', JStr ''Bob''), (''password'', JStr ''pw34'')]"

definition example_send :: "(string \<times> json) list" where
  "example_send = [(''type'', JStr ''send''), (''kind'', JStr ''image''), (''content'', JStr ''hi'')]"

definition example_bad_send :: "(string \<times> json) list" where
  "example_bad_send = [(''type'', JStr ''send''), (''kind'', JInt 5), (''content'', JStr ''hi'')]"

definition example_alice_login :: "(string \<times> json) list" where
  "example_alice_login =
     [(''type'', JStr ''login''), (''username'', JStr ''alice''), (''password'', JStr ''pw12'')]"

definition example_message :: message where
  "example_message =
     \<lparr>msg_id = 4, msg_user_id = 1, msg_username = ''alice'', msg_kind = ''text'',
      msg_sticker = JNull, msg_reply_to = None, msg_content = ''hi'',
      msg_created_at = ''2024-01-06T00:00:00+00:00''\<rparr>"


definition example_blank_send :: "(string \<times> json) list" where
  "example_blank_send = [(''type'', JStr ''send''), (''content'', JStr [CHR 0xA0, CHR '' ''])]"

definition example_reply_send :: "(string \<times> json) list" where
  "example_reply_send =
     [(''type'', JStr ''send''), (''kind'', JStr ''text''), (''content'', JStr ''hi''),
      (''reply_to'', JStr ''x'')]"

definition example_big_reply_send :: "(string \<times> json) list" where
  "example_big_reply_send =
     [(''type'', JStr ''send''), (''kind'', JStr ''text''), (''content'', JStr ''hi''),
      (''reply_to'', JInt 9223372036854775808)]"

definition example_ops :: "sys_op list" where
  "example_ops =
     [Create_user ''alice'' (JStr ''pw12'') False,
      Create_user ''Bob'' (JStr ''pw34'') True,
      Create_user [CHR 0xC9, CHR ''b'', CHR ''c''] (JStr ''pw56'') False,
      Create_user [CHR 0xE9, CHR ''a'', CHR ''b''] (JStr ''pw78'') False,
      Create_user ''ab'' (JStr ''pw90'') False,
      Register 1, Register 2, Register 3, Register 4, Register 5, Register 6,
      Login 1 [CHR 0xC9, CHR ''b'', CHR ''c''] (JStr ''pw56''),
      Login 2 ''Bob'' (JStr ''pw34''),
      Login 3 ''alice'' (JStr ''pw12''),
      Login 4 ''alice'' (JStr ''pw12''),
      Login 5 [CHR 0xE9, CHR ''a'', CHR ''b''] (JStr ''pw78''),
      Login 6 ''ab'' (JStr ''pw90''),
      Login 2 ''alice'' (JStr ''wrong''),
      Unregister 3]"

definition example_server :: server where
  "example_server =
     \<lparr>SESSIONS = [(1, Authed 1 ''alice'' False), (2, Authed 2 ''Bob'' True), (3, Unauthed)],
      CONNS = [1, 2, 3],
      db = example_db,
      sent = []\<rparr>"

section \<open>Credentials: \<open>verify_password\<close>\<close>

lemma str_split_Suc_parts:
  "str_split sep (Suc n) s = a # b # rest \<Longrightarrow>
     \<exists>t. s = a @ sep # t \<and> sep \<notin> set a \<and> str_split sep n t = b # rest"
proof -
  assume h: "str_split sep (Suc n) s = a # b # rest"
  show ?thesis
  proof (cases "dropWhile (\<lambda>c. c \<noteq> sep) s")
    case Nil
    with h show ?thesis by simp
  next
    case (Cons x t)
    then have x: "x = sep" using hd_dropWhile[of "\<lambda>c. c \<noteq> sep" s] by force
    from Cons h have a: "a = takeWhile (\<lambda>c. c \<noteq> sep) s" and r: "str_split sep n t = b # rest"
      by simp_all
    have "s = takeWhile (\<lambda>c. c \<noteq> sep) s @ dropWhile (\<lambda>c. c \<noteq> sep) s" by simp
    then have "s = a @ sep # t" using a Cons x by simp
    moreover have "sep \<notin> set a" using a by (auto dest: set_takeWhileD)
    ultimately show ?thesis using r by blast
  qed
qed

lemma str_split_four:
  assumes "str_split sep 3 s = [a, b, c, d]"
  shows "s = a @ sep # b @ sep # c @ sep # d \<and> sep \<notin> set a \<and> sep \<notin> set b \<and> sep \<notin> set c"
proof -
  have "str_split sep (Suc 2) s = a # b # [c, d]" using assms by (simp add: numeral_3_eq_3)
  then obtain t1 where 1: "s = a @ sep # t1" "sep \<notin> set a" "str_split sep 2 t1 = [b, c, d]"
    using str_split_Suc_parts by blast
  then have "str_split sep (Suc 1) t1 = b # c # [d]" by (simp add: numeral_2_eq_2)
  then obtain t2 where 2: "t1 = b @ sep # t2" "sep \<notin> set b" "str_split sep 1 t2 = [c, d]"
    using str_split_Suc_parts by blast
  then have "str_split sep (Suc 0) t2 = c # d # []" by simp
  then obtain t3 where 3: "t2 = c @ sep # t3" "sep \<notin> set c" "str_split sep 0 t3 = [d]"
    using str_split_Suc_parts by blast
  then have "t3 = d" by simp
  with 1 2 3 show ?thesis by simp
qed

lemma verify_password_try_True:
  assumes "verify_password_try cr password stored = Inr True"
  shows "\<exists>iters_str salt_b64 hash_b64 iters salt pw.
           stored = ''pbkdf2_sha256'' @ CHR ''$'' # iters_str @ CHR ''$'' # salt_b64 @ CHR ''$'' # hash_b64
         \<and> CHR ''$'' \<notin> set iters_str \<and> CHR ''$'' \<notin> set salt_b64
         \<and> py_int_str iters_str = Some iters
         \<and> urlsafe_b64decode cr (pad salt_b64) = Some salt
         \<and> password = JStr pw
         \<and> Some (pbkdf2_hmac cr pw salt iters) = Some (urlsafe_b64decode cr (pad hash_b64))
         \<and> pbkdf2_hmac cr pw salt iters \<noteq> None"
proof -
  from assms obtain algo iters_str salt_b64 hash_b64 where
    sp: "str_split CHR ''$'' 3 stored = [algo, iters_str, salt_b64, hash_b64]"
    unfolding verify_password_try_def by (auto split: list.splits)
  from assms sp have algo: "algo = ''pbkdf2_sha256''"
    unfolding verify_password_try_def by (auto split: if_splits)
  from assms sp algo obtain iters where it: "py_int_str iters_str = Some iters"
    unfolding verify_password_try_def by (auto split: option.splits)
  from assms sp algo it obtain salt where
    sa: "Option.bind (encode_ascii (pad salt_b64)) (urlsafe_b64decode cr) = Some salt"
    unfolding verify_password_try_def by (auto split: option.splits)
  from assms sp algo it sa obtain expected where
    ex: "Option.bind (encode_ascii (pad hash_b64)) (urlsafe_b64decode cr) = Some expected"
    unfolding verify_password_try_def by (auto split: option.splits)
  from assms sp algo it sa ex obtain pw where pw: "password = JStr pw"
    unfolding verify_password_try_def by (cases password) auto
  from assms sp algo it sa ex pw have dk: "pbkdf2_hmac cr pw salt iters = Some expected"
    unfolding verify_password_try_def by (auto split: option.splits)
  have sa': "urlsafe_b64decode cr (pad salt_b64) = Some salt"
    using sa by (auto simp: encode_ascii_def split: if_splits)
  have ex': "urlsafe_b64decode cr (pad hash_b64) = Some expected"
    using ex by (auto simp: encode_ascii_def split: if_splits)
  have st: "stored = ''pbkdf2_sha256'' @ CHR ''$'' # iters_str @ CHR ''$'' # salt_b64 @ CHR ''$'' # hash_b64"
    and n1: "CHR ''$'' \<notin> set iters_str" and n2: "CHR ''$'' \<notin> set salt_b64"
    using str_split_four[OF sp] algo by simp_all
  show ?thesis
    apply (rule exI[of _ iters_str], rule exI[of _ salt_b64], rule exI[of _ hash_b64])
    apply (rule exI[of _ iters], rule exI[of _ salt], rule exI[of _ pw])
    using st n1 n2 it sa' ex' pw dk by simp
qed

text \<open>
  Claim C10. \<open>verify_password\<close> is total and strict: it is true exactly when the body
  of its \<open>try\<close> returns true, so every exception raised in the body, whatever the
  password and the stored value are, gives false; and it is true only for a stored value
  of the form \<open>pbkdf2_sha256$iterations$salt$hash\<close>, with an integer iteration count, a
  salt and a hash that decode, and a \<open>str\<close> password whose derived key is the decoded
  hash. A stored value of any other form gives false.
\<close>

theorem verify_password_total_strict:
  "verify_password cr password stored = (verify_password_try cr password stored = Inr True) \<and>
   (verify_password cr password stored \<longrightarrow>
      (\<exists>iters_str salt_b64 hash_b64 iters salt pw.
           stored = ''pbkdf2_sha256'' @ CHR ''$'' # iters_str @ CHR ''$'' # salt_b64 @ CHR ''$'' # hash_b64
         \<and> CHR ''$'' \<notin> set iters_str \<and> CHR ''$'' \<notin> set salt_b64
         \<and> py_int_str iters_str = Some iters
         \<and> urlsafe_b64decode cr (pad salt_b64) = Some salt
         \<and> password = JStr pw
         \<and> Some (pbkdf2_hmac cr pw salt iters) = Some (urlsafe_b64decode cr (pad hash_b64))
         \<and> pbkdf2_hmac cr pw salt iters \<noteq> None))"
proof -
  have eq: "verify_password cr password stored = (verify_password_try cr password stored = Inr True)"
    unfolding verify_password_def by (cases "verify_password_try cr password stored") auto
  show ?thesis
  proof (rule conjI[OF eq], rule impI)
    assume "verify_password cr password stored"
    with eq have "verify_password_try cr password stored = Inr True" by simp
    then show "\<exists>iters_str salt_b64 hash_b64 iters salt pw.
           stored = ''pbkdf2_sha256'' @ CHR ''$'' # iters_str @ CHR ''$'' # salt_b64 @ CHR ''$'' # hash_b64
         \<and> CHR ''$'' \<notin> set iters_str \<and> CHR ''$'' \<notin> set salt_b64
         \<and> py_int_str iters_str = Some iters
         \<and> urlsafe_b64decode cr (pad salt_b64) = Some salt
         \<and> password = JStr pw
         \<and> Some (pbkdf2_hmac cr pw salt iters) = Some (urlsafe_b64decode cr (pad hash_b64))
         \<and> pbkdf2_hmac cr pw salt iters \<noteq> None"
      by (rule verify_password_try_True)
  qed
qed

theorem verify_password_total_strict_witness:
  "verify_password example_crypto (JStr ''pw12'') ''pbkdf2_sha256$1$abcd$pw12abcd'' \<and>
   (\<exists>iters_str salt_b64 hash_b64 iters salt pw.
        ''pbkdf2_sha256$1$abcd$pw12abcd'' =
          ''pbkdf2_sha256'' @ CHR ''$'' # iters_str @ CHR ''$'' # salt_b64 @ CHR ''$'' # hash_b64
      \<and> CHR ''$'' \<notin> set iters_str \<and> CHR ''$'' \<notin> set salt_b64
      \<and> py_int_str iters_str = Some iters
      \<and> urlsafe_b64decode example_crypto (pad salt_b64) = Some salt
      \<and> JStr ''pw12'' = JStr pw
      \<and> Some (pbkdf2_hmac example_crypto pw salt iters)
          = Some (urlsafe_b64decode example_crypto (pad hash_b64))
      \<and> pbkdf2_hmac example_crypto pw salt iters \<noteq> None) \<and>
   \<not> verify_password example_crypto (JStr ''pw12'') ''pbkdf2_sha256$1$abcd'' \<and>
   \<not> verify_password example_crypto (JStr ''pw12'') ''pbkdf2_sha256$x$abcd$pw12abcd'' \<and>
   \<not> verify_password example_crypto (JInt 5) ''pbkdf2_sha256$1$abcd$pw12abcd''"
proof -
  have a: "verify_password example_crypto (JStr ''pw12'') ''pbkdf2_sha256$1$abcd$pw12abcd''"
    by code_simp
  have b: "\<not> verify_password example_crypto (JStr ''pw12'') ''pbkdf2_sha256$1$abcd''"
    by code_simp
  have c: "\<not> verify_password example_crypto (JStr ''pw12'') ''pbkdf2_sha256$x$abcd$pw12abcd''"
    by code_simp
  have d: "\<not> verify_password example_crypto (JInt 5) ''pbkdf2_sha256$1$abcd$pw12abcd''"
    by code_simp
  from verify_password_total_strict
         [of example_crypto "JStr ''pw12''" "''pbkdf2_sha256$1$abcd$pw12abcd''"] a b c d
  show ?thesis by blast
qed

section \<open>Broadcast: frame, final presence, termination\<close>

lemma shrunk_refl: "shrunk {} st st"
  by (simp add: shrunk_def)

lemma shrunk_trans: "shrunk D1 a b \<Longrightarrow> shrunk D2 b c \<Longrightarrow> shrunk (D1 \<union> D2) a c"
  by (auto simp: shrunk_def intro: filter_cong)

lemma shrunk_unregister: "shrunk {w} st (unregister w st)"
  by (auto simp: shrunk_def unregister_def removeAll_filter_not_eq AList.delete_eq intro: filter_cong)

lemma snd_send_each: "snd (send_each env ev ws st) = st\<lparr>sent := sent st @ map (\<lambda>w. (w, ev)) ws\<rparr>"
  by (induction ws arbitrary: st) (simp_all add: Let_def)

lemma fst_send_each_subset: "set (fst (send_each env ev ws st)) \<subseteq> set ws"
  by (induction ws arbitrary: st) (auto simp: Let_def)

lemma fst_send_each_nth:
  "i < length ws \<Longrightarrow> send_raises env (length (sent st) + i) (ws ! i)
     \<Longrightarrow> ws ! i \<in> set (fst (send_each env ev ws st))"
proof (induction ws arbitrary: st i)
  case Nil
  then show ?case by simp
next
  case (Cons w ws)
  show ?case
  proof (cases i)
    case 0
    with Cons.prems show ?thesis by (simp add: Let_def)
  next
    case (Suc j)
    with Cons.prems have "j < length ws"
      and "send_raises env (length (sent (st\<lparr>sent := sent st @ [(w, ev)]\<rparr>)) + j) (ws ! j)"
      by simp_all
    from Cons.IH[OF this] Suc show ?thesis by (simp add: Let_def)
  qed
qed

lemma broadcast_frame:
  "(broadcast k env ev st = Some st' \<longrightarrow>
      (\<exists>D new. shrunk D st st' \<and> set (fst (send_each env ev (CONNS st) st)) \<subseteq> D \<and>
               sent st' = sent st @ map (\<lambda>w. (w, ev)) (CONNS st) @ new \<and> presence_only new))"
  "(cleanup_dead k env ws st = Some st' \<longrightarrow>
      (\<exists>D new. shrunk D st st' \<and> set ws \<subseteq> D \<and> sent st' = sent st @ new \<and> presence_only new))"
  "(cleanup_ws k env w st = Some st' \<longrightarrow>
      (\<exists>D new. shrunk D st st' \<and> w \<in> D \<and> sent st' = sent st @ new \<and> presence_only new))"
  "(broadcast_presence k env st = Some st' \<longrightarrow>
      (\<exists>D new. shrunk D st st' \<and> sent st' = sent st @ new \<and> presence_only new))"
proof (induction k env ev st and k env ws st and k env w st and k env st
       arbitrary: st' and st' and st' and st'
       rule: broadcast_cleanup_dead_cleanup_ws_broadcast_presence.induct)
  case (1 env ev st)
  then show ?case by simp
next
  case (2 k env ev st)
  show ?case
  proof
    assume h: "broadcast (Suc k) env ev st = Some st'"
    obtain dead st1 where se: "send_each env ev (CONNS st) st = (dead, st1)"
      by (cases "send_each env ev (CONNS st) st")
    have st1: "st1 = st\<lparr>sent := sent st @ map (\<lambda>w. (w, ev)) (CONNS st)\<rparr>"
      using snd_send_each[of env ev "CONNS st" st] se by simp
    from h se have "cleanup_dead k env dead st1 = Some st'" by simp
    with "2.IH"[OF se[symmetric]] obtain D new where
      d: "shrunk D st1 st'" "set dead \<subseteq> D" "sent st' = sent st1 @ new" "presence_only new"
      by blast
    have "shrunk D st st'" using d(1) st1 by (simp add: shrunk_def)
    moreover have "set (fst (send_each env ev (CONNS st) st)) \<subseteq> D" using d(2) se by simp
    moreover have "sent st' = sent st @ map (\<lambda>w. (w, ev)) (CONNS st) @ new"
      using d(3) st1 by simp
    ultimately show "\<exists>D new. shrunk D st st' \<and> set (fst (send_each env ev (CONNS st) st)) \<subseteq> D \<and>
               sent st' = sent st @ map (\<lambda>w. (w, ev)) (CONNS st) @ new \<and> presence_only new"
      using d(4) by blast
  qed
next
  case (3 k env st)
  show ?case
    by (auto intro!: exI[of _ "{}"] exI[of _ "[]"] simp: shrunk_refl presence_only_def)
next
  case (4 k env w ws st)
  show ?case
  proof
    assume h: "cleanup_dead k env (w # ws) st = Some st'"
    then obtain st1 where c1: "cleanup_ws k env w st = Some st1"
      and c2: "cleanup_dead k env ws st1 = Some st'"
      by (auto split: option.splits)
    from "4.IH"(1) c1 obtain D1 new1 where
      d1: "shrunk D1 st st1" "w \<in> D1" "sent st1 = sent st @ new1" "presence_only new1"
      by blast
    from "4.IH"(2)[OF c1] c2 obtain D2 new2 where
      d2: "shrunk D2 st1 st'" "set ws \<subseteq> D2" "sent st' = sent st1 @ new2" "presence_only new2"
      by blast
    have "shrunk (D1 \<union> D2) st st'" using d1(1) d2(1) by (rule shrunk_trans)
    moreover have "set (w # ws) \<subseteq> D1 \<union> D2" using d1(2) d2(2) by auto
    moreover have "sent st' = sent st @ (new1 @ new2)" using d1(3) d2(3) by simp
    moreover have "presence_only (new1 @ new2)" using d1(4) d2(4) by (simp add: presence_only_def)
    ultimately show "\<exists>D new. shrunk D st st' \<and> set (w # ws) \<subseteq> D \<and> sent st' = sent st @ new \<and> presence_only new"
      by blast
  qed
next
  case (5 k env ws st)
  show ?case
  proof
    assume h: "cleanup_ws k env ws st = Some st'"
    then have "broadcast_presence k env (unregister ws st) = Some st'" by simp
    with "5.IH" obtain D new where
      d: "shrunk D (unregister ws st) st'" "sent st' = sent (unregister ws st) @ new" "presence_only new"
      by blast
    have "shrunk ({ws} \<union> D) st st'" using shrunk_unregister d(1) by (rule shrunk_trans)
    moreover have "sent st' = sent st @ new" using d(2) by (simp add: unregister_def)
    ultimately show "\<exists>D new. shrunk D st st' \<and> ws \<in> D \<and> sent st' = sent st @ new \<and> presence_only new"
      using d(3) by blast
  qed
next
  case (6 k env st)
  show ?case
  proof
    assume h: "broadcast_presence k env st = Some st'"
    then have "broadcast k env (Ev_presence (online_usernames st)) st = Some st'" by simp
    with "6.IH" obtain D new where
      d: "shrunk D st st'"
         "sent st' = sent st @ map (\<lambda>w. (w, Ev_presence (online_usernames st))) (CONNS st) @ new"
         "presence_only new"
      by blast
    have "presence_only (map (\<lambda>w. (w, Ev_presence (online_usernames st))) (CONNS st) @ new)"
      using d(3) by (auto simp add: presence_only_def list_all_iff)
    with d(1,2) show "\<exists>D new. shrunk D st st' \<and> sent st' = sent st @ new \<and> presence_only new"
      by blast
  qed
qed

lemma shrunk_conns_subset: "shrunk D st st' \<Longrightarrow> set (CONNS st') \<subseteq> set (CONNS st)"
  by (auto simp: shrunk_def)

lemma broadcast_ends_presence:
  "(broadcast k env ev st = Some st' \<longrightarrow>
      fst (send_each env ev (CONNS st) st) \<noteq> [] \<or> ev = Ev_presence (online_usernames st) \<longrightarrow>
      ends_presence st')"
  "(cleanup_dead k env ws st = Some st' \<longrightarrow> ws \<noteq> [] \<or> ends_presence st \<longrightarrow> ends_presence st')"
  "(cleanup_ws k env w st = Some st' \<longrightarrow> ends_presence st')"
  "(broadcast_presence k env st = Some st' \<longrightarrow> ends_presence st')"
proof (induction k env ev st and k env ws st and k env w st and k env st
       arbitrary: st' and st' and st' and st'
       rule: broadcast_cleanup_dead_cleanup_ws_broadcast_presence.induct)
  case (1 env ev st)
  then show ?case by simp
next
  case (2 k env ev st)
  show ?case
  proof (intro impI)
    assume h: "broadcast (Suc k) env ev st = Some st'"
      and c: "fst (send_each env ev (CONNS st) st) \<noteq> [] \<or> ev = Ev_presence (online_usernames st)"
    obtain dead st1 where se: "send_each env ev (CONNS st) st = (dead, st1)"
      by (cases "send_each env ev (CONNS st) st")
    have st1: "st1 = st\<lparr>sent := sent st @ map (\<lambda>w. (w, ev)) (CONNS st)\<rparr>"
      using snd_send_each[of env ev "CONNS st" st] se by simp
    from h se have cd: "cleanup_dead k env dead st1 = Some st'" by simp
    have "dead \<noteq> [] \<or> ends_presence st1"
    proof (cases "dead = []")
      case True
      with c se have "ev = Ev_presence (online_usernames st)" by simp
      then have "ends_presence st1"
        unfolding ends_presence_def st1 by (simp add: online_usernames_def)
      then show ?thesis ..
    next
      case False
      then show ?thesis ..
    qed
    with "2.IH"[OF se[symmetric]] cd show "ends_presence st'" by blast
  qed
next
  case (3 k env st)
  show ?case by simp
next
  case (4 k env w ws st)
  show ?case
  proof (intro impI)
    assume h: "cleanup_dead k env (w # ws) st = Some st'"
    then obtain st1 where c1: "cleanup_ws k env w st = Some st1"
      and c2: "cleanup_dead k env ws st1 = Some st'"
      by (auto split: option.splits)
    from "4.IH"(1) c1 have "ends_presence st1" by blast
    with "4.IH"(2)[OF c1] c2 show "ends_presence st'" by blast
  qed
next
  case (5 k env ws st)
  then show ?case by simp
next
  case (6 k env st)
  then show ?case by simp
qed

lemma card_diff_mono:
  "set (CONNS b) \<subseteq> set (CONNS a) \<Longrightarrow> card (set (CONNS b) - {w}) \<le> card (set (CONNS a) - {w})"
  by (rule card_mono) auto

lemma broadcast_enough_fuel:
  "(card (set (CONNS st)) < k \<longrightarrow> broadcast k env ev st \<noteq> None)"
  "((\<forall>w\<in>set ws. card (set (CONNS st) - {w}) < k) \<longrightarrow> cleanup_dead k env ws st \<noteq> None)"
  "(card (set (CONNS st) - {w}) < k \<longrightarrow> cleanup_ws k env w st \<noteq> None)"
  "(card (set (CONNS st)) < k \<longrightarrow> broadcast_presence k env st \<noteq> None)"
proof (induction k env ev st and k env ws st and k env w st and k env st
       rule: broadcast_cleanup_dead_cleanup_ws_broadcast_presence.induct)
  case (1 env ev st)
  then show ?case by simp
next
  case (2 k env ev st)
  show ?case
  proof
    assume c: "card (set (CONNS st)) < Suc k"
    obtain dead st1 where se: "send_each env ev (CONNS st) st = (dead, st1)"
      by (cases "send_each env ev (CONNS st) st")
    have st1: "st1 = st\<lparr>sent := sent st @ map (\<lambda>w. (w, ev)) (CONNS st)\<rparr>"
      using snd_send_each[of env ev "CONNS st" st] se by simp
    have sub: "set dead \<subseteq> set (CONNS st)"
      using fst_send_each_subset[of env ev "CONNS st" st] se by simp
    have "\<forall>w\<in>set dead. card (set (CONNS st1) - {w}) < k"
    proof
      fix w assume "w \<in> set dead"
      with sub have "w \<in> set (CONNS st)" by blast
      then have "card (set (CONNS st) - {w}) < card (set (CONNS st))"
        by (intro card_Diff1_less) simp_all
      with c show "card (set (CONNS st1) - {w}) < k" by (simp add: st1)
    qed
    with "2.IH"[OF se[symmetric]] have "cleanup_dead k env dead st1 \<noteq> None" by blast
    with se show "broadcast (Suc k) env ev st \<noteq> None" by simp
  qed
next
  case (3 k env st)
  show ?case by simp
next
  case (4 k env w ws st)
  show ?case
  proof
    assume c: "\<forall>x\<in>set (w # ws). card (set (CONNS st) - {x}) < k"
    with "4.IH"(1) obtain st1 where c1: "cleanup_ws k env w st = Some st1" by auto
    from broadcast_frame(3)[of k env w st st1] c1 obtain D where "shrunk D st st1" by blast
    then have sub: "set (CONNS st1) \<subseteq> set (CONNS st)" by (rule shrunk_conns_subset)
    have "\<forall>x\<in>set ws. card (set (CONNS st1) - {x}) < k"
    proof
      fix x assume "x \<in> set ws"
      with c have "card (set (CONNS st) - {x}) < k" by simp
      with card_diff_mono[OF sub, of x] show "card (set (CONNS st1) - {x}) < k" by simp
    qed
    with "4.IH"(2)[OF c1] have "cleanup_dead k env ws st1 \<noteq> None" by blast
    with c1 show "cleanup_dead k env (w # ws) st \<noteq> None" by simp
  qed
next
  case (5 k env ws st)
  have "set (CONNS (unregister ws st)) = set (CONNS st) - {ws}"
    by (auto simp: unregister_def)
  with "5.IH" show ?case by simp
next
  case (6 k env st)
  then show ?case by simp
qed

section \<open>Broadcast: the claims\<close>

text \<open>
  Claim C9. With a depth bound above the number of registered connections,
  \<open>broadcast\<close> returns. Its first calls of \<open>send\<close> are one per connection of
  \<open>CONNS\<close>, in order, whichever of them raise: a failure does not stop the attempts on
  the others. Every connection whose \<open>send\<close> raised is afterwards in neither \<open>CONNS\<close>
  nor \<open>SESSIONS\<close>; and when one raised, the run ends with a presence event, carrying
  the final online list, sent to every connection that is left.
\<close>

theorem broadcast_isolates_failures:
  assumes "card (set (CONNS st)) < k"
  shows "\<exists>st'. broadcast k env ev st = Some st' \<and>
     take (length (CONNS st)) (drop (length (sent st)) (sent st')) = map (\<lambda>w. (w, ev)) (CONNS st) \<and>
     (\<forall>i < length (CONNS st). send_raises env (length (sent st) + i) (CONNS st ! i) \<longrightarrow>
         CONNS st ! i \<notin> set (CONNS st') \<and> map_of (SESSIONS st') (CONNS st ! i) = None) \<and>
     ((\<exists>i < length (CONNS st). send_raises env (length (sent st) + i) (CONNS st ! i)) \<longrightarrow>
         ends_presence st')"
proof -
  from broadcast_enough_fuel(1)[of st k env ev] assms obtain st' where
    b: "broadcast k env ev st = Some st'" by auto
  from broadcast_frame(1)[of k env ev st st'] b obtain D new where
    d: "shrunk D st st'" "set (fst (send_each env ev (CONNS st) st)) \<subseteq> D"
       "sent st' = sent st @ map (\<lambda>w. (w, ev)) (CONNS st) @ new"
    by blast
  have 1: "take (length (CONNS st)) (drop (length (sent st)) (sent st')) = map (\<lambda>w. (w, ev)) (CONNS st)"
    using d(3) by simp
  have 2: "CONNS st ! i \<notin> set (CONNS st') \<and> map_of (SESSIONS st') (CONNS st ! i) = None"
    if "i < length (CONNS st)" "send_raises env (length (sent st) + i) (CONNS st ! i)" for i
  proof -
    from fst_send_each_nth[OF that, of ev] d(2) have inD: "CONNS st ! i \<in> D" by blast
    then have "CONNS st ! i \<notin> set (CONNS st')" using d(1) by (simp add: shrunk_def)
    moreover have "CONNS st ! i \<notin> fst ` set (SESSIONS st')"
      using d(1) inD by (auto simp: shrunk_def)
    then have "map_of (SESSIONS st') (CONNS st ! i) = None" by (simp add: map_of_eq_None_iff)
    ultimately show ?thesis ..
  qed
  have 3: "ends_presence st'"
    if "\<exists>i < length (CONNS st). send_raises env (length (sent st) + i) (CONNS st ! i)"
  proof -
    from that obtain i where "i < length (CONNS st)"
      "send_raises env (length (sent st) + i) (CONNS st ! i)" by blast
    from fst_send_each_nth[OF this, of ev] have "fst (send_each env ev (CONNS st) st) \<noteq> []"
      by force
    with broadcast_ends_presence(1)[of k env ev st st'] b show ?thesis by blast
  qed
  from b 1 2 3 show ?thesis by blast
qed


theorem broadcast_isolates_failures_witness:
  "card (set (CONNS example_server)) < 4 \<and>
   send_raises example_env (length (sent example_server) + 1) (CONNS example_server ! 1) \<and>
   (\<exists>st'. broadcast 4 example_env (Ev_error ''x'') example_server = Some st' \<and>
      CONNS st' = [1, 3] \<and>
      SESSIONS st' = [(1, Authed 1 ''alice'' False), (3, Unauthed)] \<and>
      sent st' = [(1, Ev_error ''x''), (2, Ev_error ''x''), (3, Ev_error ''x''),
                  (1, Ev_presence [''alice'']), (3, Ev_presence [''alice''])] \<and>
      ends_presence st')"
proof -
  have c: "card (set (CONNS example_server)) < 4"
    by (simp add: example_server_def)
  have r: "send_raises example_env (length (sent example_server) + 1) (CONNS example_server ! 1)"
    by (simp add: example_server_def example_env_def)
  have i: "1 < length (CONNS example_server)"
    by (simp add: example_server_def)
  have b: "broadcast 4 example_env (Ev_error ''x'') example_server =
        Some \<lparr>SESSIONS = [(1, Authed 1 ''alice'' False), (3, Unauthed)],
              CONNS = [1, 3],
              db = example_db,
              sent = [(1, Ev_error ''x''), (2, Ev_error ''x''), (3, Ev_error ''x''),
                      (1, Ev_presence [''alice'']), (3, Ev_presence [''alice''])]\<rparr>"
    by code_simp
  from broadcast_isolates_failures[OF c, of example_env "Ev_error ''x''"] obtain st' where
    s: "broadcast 4 example_env (Ev_error ''x'') example_server = Some st'" and
    e: "(\<exists>i < length (CONNS example_server).
           send_raises example_env (length (sent example_server) + i) (CONNS example_server ! i))
        \<longrightarrow> ends_presence st'"
    by blast
  from i r e have p: "ends_presence st'" by blast
  from s b have 1: "CONNS st' = [1, 3]"
    and 2: "SESSIONS st' = [(1, Authed 1 ''alice'' False), (3, Unauthed)]"
    and 3: "sent st' = [(1, Ev_error ''x''), (2, Ev_error ''x''), (3, Ev_error ''x''),
                  (1, Ev_presence [''alice'']), (3, Ev_presence [''alice''])]"
    by auto
  from c r s 1 2 3 p show ?thesis by blast
qed

section \<open>Presence: \<open>online_usernames\<close>\<close>

lemma set_online_names:
  "set (online_names ss) = {name. name \<noteq> [] \<and> (\<exists>ws uid adm. (ws, Authed uid name adm) \<in> set ss)}"
proof (induction ss)
  case Nil
  then show ?case by (simp add: online_names_def)
next
  case (Cons p ss)
  obtain w s where p: "p = (w, s)" by (cases p)
  have "online_names (p # ss) =
      (case s of Unauthed \<Rightarrow> [] | Authed uid name adm \<Rightarrow> if name \<noteq> [] then [name] else [])
      @ online_names ss"
    by (simp add: online_names_def p)
  with Cons.IH show ?case
    by (cases s) (auto simp: p)
qed

section \<open>History: \<open>fetch_history\<close>\<close>

lemma rev_take_rev: "rev (take n (rev xs)) = drop (length xs - n) xs"
  by (simp add: take_rev)

lemma msg_id_history_entry: "msg_id (history_entry r) = m_id (fst r)"
  by (cases r) (simp add: history_entry_def)

lemma fetch_history_eq:
  "fetch_history d limit =
     map history_entry
       (drop (length (history_rows d) - nat (max 1 (min 200 limit)))
          (sort_key (\<lambda>r. m_id (fst r)) (history_rows d)))"
  by (simp add: fetch_history_def Let_def rev_take_rev)

lemma fetch_history_sorted: "sorted (map msg_id (fetch_history d limit))"
proof -
  have "map msg_id (fetch_history d limit) =
     drop (length (history_rows d) - nat (max 1 (min 200 limit)))
       (map (\<lambda>r. m_id (fst r)) (sort_key (\<lambda>r. m_id (fst r)) (history_rows d)))"
    by (simp add: fetch_history_eq drop_map msg_id_history_entry comp_def)
  then show ?thesis by (simp add: sorted_wrt_drop)
qed

lemma fetch_history_length: "length (fetch_history d limit) \<le> nat (max 1 (min 200 limit))"
  by (simp add: fetch_history_def Let_def)

section \<open>The handler: replies that need no broadcast\<close>

lemma send_json_state: "snd (send_json env ws ev st) = st\<lparr>sent := sent st @ [(ws, ev)]\<rparr>"
  by (simp add: send_json_def)

lemma require_authed_Inl:
  "map_of (SESSIONS st) ws = None \<or> map_of (SESSIONS st) ws = Some Unauthed
     \<Longrightarrow> \<exists>e. require_authed st ws = Inl e"
  by (auto simp: require_authed_def)

lemma require_authed_Inr:
  "map_of (SESSIONS st) ws = Some (Authed uid name adm)
     \<Longrightarrow> require_authed st ws = Inr (Authed uid name adm)"
  by (simp add: require_authed_def)

text \<open>
  Claim C7. A frame that parsed to a dict whose \<open>type\<close> is not \<open>login\<close>, on a connection
  whose session is not authenticated, makes the handler send the error
  \<open>Please login first\<close> to that connection and nothing else; \<open>SESSIONS\<close>, \<open>CONNS\<close> and
  the database are as before.
\<close>

theorem unauthenticated_frame_rejected:
  assumes "map_of (SESSIONS st) ws = None \<or> map_of (SESSIONS st) ws = Some Unauthed"
    and "dict_get msg ''type'' \<noteq> JStr ''login''"
  shows "\<exists>out st'. handle_frame k env ws (Some (JObj msg)) st = Some (out, st') \<and>
           sent st' = sent st @ [(ws, Ev_error ''Please login first'')] \<and>
           SESSIONS st' = SESSIONS st \<and> CONNS st' = CONNS st \<and> db st' = db st"
proof -
  from require_authed_Inl[OF assms(1)] obtain e where "require_authed st ws = Inl e" ..
  with assms(2) have "handle_frame k env ws (Some (JObj msg)) st =
      Some (send_json env ws (Ev_error ''Please login first'') st)"
    by (simp add: handle_frame_def Let_def)
  then show ?thesis by (simp add: send_json_def)
qed

theorem unauthenticated_frame_rejected_witness:
  "map_of (SESSIONS example_server) 3 = Some Unauthed \<and>
   dict_get [(''type'', JStr ''send''), (''content'', JStr ''hi'')] ''type'' \<noteq> JStr ''login'' \<and>
   (\<exists>out st'. handle_frame 4 example_env 3
                 (Some (JObj [(''type'', JStr ''send''), (''content'', JStr ''hi'')]))
                 example_server = Some (out, st') \<and>
        sent st' = sent example_server @ [(3, Ev_error ''Please login first'')] \<and>
        SESSIONS st' = SESSIONS example_server \<and> CONNS st' = CONNS example_server \<and>
        db st' = db example_server)"
proof -
  have a: "map_of (SESSIONS example_server) 3 = None \<or> map_of (SESSIONS example_server) 3 = Some Unauthed"
    by (simp add: example_server_def)
  have a': "map_of (SESSIONS example_server) 3 = Some Unauthed"
    by (simp add: example_server_def)
  have b: "dict_get [(''type'', JStr ''send''), (''content'', JStr ''hi'')] ''type'' \<noteq> JStr ''login''"
    by (simp add: dict_get_def)
  from unauthenticated_frame_rejected[OF a b, of 4 example_env] a' b show ?thesis by blast
qed

text \<open>
  Claim C6, as amended. A frame of type \<open>join\<close> or \<open>history_room\<close> is answered with
  \<open>Rooms are disabled. Single chat only.\<close> when the session is authenticated, and with
  \<open>Please login first\<close> when it is not; in both cases nothing else is sent and the
  state is as before.
\<close>

theorem rooms_disabled_after_login:
  assumes "dict_get msg ''type'' = JStr ''join'' \<or> dict_get msg ''type'' = JStr ''history_room''"
  shows "\<exists>out st'. handle_frame k env ws (Some (JObj msg)) st = Some (out, st') \<and>
           sent st' = sent st @
             [(ws, Ev_error (if \<exists>uid name adm. map_of (SESSIONS st) ws = Some (Authed uid name adm)
                             then ''Rooms are disabled. Single chat only.''
                             else ''Please login first''))] \<and>
           SESSIONS st' = SESSIONS st \<and> CONNS st' = CONNS st \<and> db st' = db st"
proof (cases "\<exists>uid name adm. map_of (SESSIONS st) ws = Some (Authed uid name adm)")
  case True
  then obtain uid name adm where m: "map_of (SESSIONS st) ws = Some (Authed uid name adm)"
    by blast
  from assms require_authed_Inr[OF m]
  have "handle_frame k env ws (Some (JObj msg)) st =
      Some (send_json env ws (Ev_error ''Rooms are disabled. Single chat only.'') st)"
    by (auto simp: handle_frame_def Let_def)
  with True show ?thesis by (simp add: send_json_def)
next
  case False
  then have "map_of (SESSIONS st) ws = None \<or> map_of (SESSIONS st) ws = Some Unauthed"
    by (cases "map_of (SESSIONS st) ws") (auto intro: session.exhaust)
  from require_authed_Inl[OF this] obtain e where "require_authed st ws = Inl e" ..
  with assms have "handle_frame k env ws (Some (JObj msg)) st =
      Some (send_json env ws (Ev_error ''Please login first'') st)"
    by (auto simp: handle_frame_def Let_def)
  with False show ?thesis by (simp add: send_json_def)
qed

theorem rooms_disabled_after_login_witness:
  "(dict_get [(''type'', JStr ''join'')] ''type'' = JStr ''join'' \<or>
    dict_get [(''type'', JStr ''join'')] ''type'' = JStr ''history_room'') \<and>
   map_of (SESSIONS example_server) 1 = Some (Authed 1 ''alice'' False) \<and>
   (\<exists>out st'. handle_frame 4 example_env 1 (Some (JObj [(''type'', JStr ''join'')])) example_server
                 = Some (out, st') \<and>
        sent st' = sent example_server @ [(1, Ev_error ''Rooms are disabled. Single chat only.'')] \<and>
        SESSIONS st' = SESSIONS example_server \<and> CONNS st' = CONNS example_server \<and>
        db st' = db example_server)"
proof -
  have a: "dict_get [(''type'', JStr ''join'')] ''type'' = JStr ''join'' \<or>
           dict_get [(''type'', JStr ''join'')] ''type'' = JStr ''history_room''"
    by (simp add: dict_get_def)
  have m: "map_of (SESSIONS example_server) 1 = Some (Authed 1 ''alice'' False)"
    by (simp add: example_server_def)
  then have e: "\<exists>uid name adm. map_of (SESSIONS example_server) 1 = Some (Authed uid name adm)"
    by blast
  from rooms_disabled_after_login[OF a, of 4 example_env 1 example_server] e
  have "\<exists>out st'. handle_frame 4 example_env 1 (Some (JObj [(''type'', JStr ''join'')])) example_server
                 = Some (out, st') \<and>
        sent st' = sent example_server @ [(1, Ev_error ''Rooms are disabled. Single chat only.'')] \<and>
        SESSIONS st' = SESSIONS example_server \<and> CONNS st' = CONNS example_server \<and>
        db st' = db example_server"
    by simp
  with a m show ?thesis by blast
qed

text \<open>
  The claim as stated fails before login: \<open>require_authed\<close> comes first, so \<open>join\<close> on
  an unauthenticated connection gets \<open>Please login first\<close>.
\<close>

theorem join_before_login_counterexample:
  "map_of (SESSIONS example_server) 3 = Some Unauthed \<and>
   handle_frame 4 example_env 3 (Some (JObj [(''type'', JStr ''join'')])) example_server
     = Some (Continue, example_server\<lparr>sent := [(3, Ev_error ''Please login first'')]\<rparr>)"
  by (simp add: example_server_def example_env_def handle_frame_def dict_get_def
        require_authed_def send_json_def)

text \<open>
  Claim C8. An \<open>admin_create_user\<close> frame on an authenticated session that is not admin
  is answered with \<open>admin_create_user_error\<close> \<open>Admin only\<close>, sent to that connection
  only; the branch ends there, before \<open>create_user\<close>: the database is as before.
\<close>

theorem non_admin_create_user_rejected:
  assumes "map_of (SESSIONS st) ws = Some (Authed uid name False)"
    and "dict_get msg ''type'' = JStr ''admin_create_user''"
  shows "\<exists>out st'. handle_frame k env ws (Some (JObj msg)) st = Some (out, st') \<and>
           sent st' = sent st @ [(ws, Ev_admin_create_user_error ''Admin only'')] \<and>
           db st' = db st \<and> SESSIONS st' = SESSIONS st \<and> CONNS st' = CONNS st"
proof -
  from assms(2) require_authed_Inr[OF assms(1)]
  have "handle_frame k env ws (Some (JObj msg)) st =
      Some (send_json env ws (Ev_admin_create_user_error ''Admin only'') st)"
    by (simp add: handle_frame_def Let_def on_admin_create_user_def)
  then show ?thesis by (simp add: send_json_def)
qed


theorem non_admin_create_user_rejected_witness:
  "map_of (SESSIONS example_server) 1 = Some (Authed 1 ''alice'' False) \<and>
   dict_get [(''type'', JStr ''admin_create_user''), (''username'', JStr ''carol''),
             (''password'', JStr ''secret'')] ''type'' = JStr ''admin_create_user'' \<and>
   (\<exists>out st'. handle_frame 4 example_env 1
                 (Some (JObj [(''type'', JStr ''admin_create_user''), (''username'', JStr ''carol''),
                              (''password'', JStr ''secret'')])) example_server = Some (out, st') \<and>
        sent st' = sent example_server @ [(1, Ev_admin_create_user_error ''Admin only'')] \<and>
        db st' = db example_server \<and> SESSIONS st' = SESSIONS example_server \<and>
        CONNS st' = CONNS example_server)"
proof -
  have m: "map_of (SESSIONS example_server) 1 = Some (Authed 1 ''alice'' False)"
    by (simp add: example_server_def)
  have t: "dict_get [(''type'', JStr ''admin_create_user''), (''username'', JStr ''carol''),
             (''password'', JStr ''secret'')] ''type'' = JStr ''admin_create_user''"
    by (simp add: dict_get_def)
  from non_admin_create_user_rejected[OF m t, of 4 example_env] m t show ?thesis by blast
qed

section \<open>The handler: login\<close>



lemma on_login_rejected:
  assumes "py_strip (py_or (dict_get msg ''username'') (JStr [])) = Inr username"
    and "authenticate (crypto_of env) (db st) username
           (py_or (dict_get msg ''password'') (JStr [])) = None"
  shows "on_login k env ws msg st =
           Some (send_json env ws (Ev_login_error ''Invalid credentials or inactive user'') st)"
  using assms by (simp add: on_login_def)

lemma on_login_accepted:
  assumes "py_strip (py_or (dict_get msg ''username'') (JStr [])) = Inr username"
    and "authenticate (crypto_of env) (db st) username
           (py_or (dict_get msg ''password'') (JStr [])) = Some u"
    and "card (set (CONNS st)) < k"
  shows "\<exists>out st' D new. on_login k env ws msg st = Some (out, st') \<and>
           shrunk D (set_session ws u st) st' \<and>
           sent st' = sent st @ (ws, Ev_login_ok (u_username u) (u_is_admin u)) # new \<and>
           list_all (\<lambda>p. p = (ws, Ev_history (fetch_history (db st) 80)) \<or>
                          wire_type (snd p) = ''presence'') new"
proof -
  let ?st0 = "set_session ws u st"
  let ?st1 = "?st0\<lparr>sent := sent ?st0 @ [(ws, Ev_login_ok (u_username u) (u_is_admin u))]\<rparr>"
  let ?st2 = "?st1\<lparr>sent := sent ?st1 @ [(ws, Ev_history (fetch_history (db ?st1) 80))]\<rparr>"
  have db1: "db ?st1 = db st" and s0: "sent ?st0 = sent st" by (simp_all add: set_session_def)
  show ?thesis
  proof (cases "send_raises env (length (sent ?st0)) ws")
    case True
    then have 1: "on_login k env ws msg st = Some (Raise ConnectionClosed, ?st1)"
      using assms(1,2) by (simp add: on_login_def send_json_def)
    have 2: "shrunk {} ?st0 ?st1" by (simp add: shrunk_def)
    have 3: "sent ?st1 = sent st @ (ws, Ev_login_ok (u_username u) (u_is_admin u)) # []"
      using s0 by simp
    have 4: "list_all (\<lambda>p. p = (ws, Ev_history (fetch_history (db st) 80)) \<or>
                          wire_type (snd p) = ''presence'') []"
      by simp
    from 1 2 3 4 show ?thesis by blast
  next
    case ok1: False
    show ?thesis
    proof (cases "send_raises env (length (sent ?st1)) ws")
      case True
      then have 1: "on_login k env ws msg st = Some (Raise ConnectionClosed, ?st2)"
        using assms(1,2) ok1 by (simp add: on_login_def send_json_def)
      have 2: "shrunk {} ?st0 ?st2" by (simp add: shrunk_def)
      have 3: "sent ?st2 = sent st @ (ws, Ev_login_ok (u_username u) (u_is_admin u))
                       # [(ws, Ev_history (fetch_history (db st) 80))]"
        using s0 db1 by simp
      have 4: "list_all (\<lambda>p. p = (ws, Ev_history (fetch_history (db st) 80)) \<or>
                          wire_type (snd p) = ''presence'')
                 [(ws, Ev_history (fetch_history (db st) 80))]"
        by simp
      from 1 2 3 4 show ?thesis by blast
    next
      case ok2: False
      have "card (set (CONNS ?st2)) < k" using assms(3) by (simp add: set_session_def)
      with broadcast_enough_fuel(4)[of ?st2 k env] obtain st' where
        b: "broadcast_presence k env ?st2 = Some st'" by blast
      from broadcast_frame(4)[of k env ?st2 st'] b obtain D new where
        d: "shrunk D ?st2 st'" "sent st' = sent ?st2 @ new" "presence_only new" by blast
      have 1: "on_login k env ws msg st = Some (Continue, st')"
        using assms(1,2) ok1 ok2 b by (simp add: on_login_def send_json_def)
      have 2: "shrunk D ?st0 st'" using d(1) by (simp add: shrunk_def)
      have 3: "sent st' = sent st @ (ws, Ev_login_ok (u_username u) (u_is_admin u))
                 # ((ws, Ev_history (fetch_history (db st) 80)) # new)"
        using d(2) s0 db1 by simp
      have 4: "list_all (\<lambda>p. p = (ws, Ev_history (fetch_history (db st) 80)) \<or>
                          wire_type (snd p) = ''presence'')
                 ((ws, Ev_history (fetch_history (db st) 80)) # new)"
        using d(3) by (auto simp: presence_only_def list_all_iff)
      from 1 2 3 4 show ?thesis by blast
    qed
  qed
qed

section \<open>The handler: history on login\<close>

lemma login_sends:
  assumes "dict_get msg ''type'' = JStr ''login''" and "card (set (CONNS st)) < k"
  shows "\<exists>out st' new. handle_frame k env ws (Some (JObj msg)) st = Some (out, st') \<and>
           sent st' = sent st @ new \<and>
           (\<forall>w ms. (w, Ev_history ms) \<in> set new \<longrightarrow> w = ws \<and> ms = fetch_history (db st) 80)"
proof -
  have hf: "handle_frame k env ws (Some (JObj msg)) st = on_login k env ws msg st"
    using assms(1) by (simp add: handle_frame_def)
  show ?thesis
  proof (cases "py_strip (py_or (dict_get msg ''username'') (JStr []))")
    case (Inl e)
    then have "on_login k env ws msg st = Some (Raise e, st)" by (simp add: on_login_def)
    with hf show ?thesis by simp
  next
    case (Inr username)
    show ?thesis
    proof (cases "authenticate (crypto_of env) (db st) username
                    (py_or (dict_get msg ''password'') (JStr []))")
      case None
      from on_login_rejected[OF Inr None, of k ws] hf show ?thesis
        by (simp add: send_json_def)
    next
      case (Some u)
      from on_login_accepted[OF Inr Some assms(2), of ws] obtain out st' D new where
        r: "on_login k env ws msg st = Some (out, st')"
           "sent st' = sent st @ (ws, Ev_login_ok (u_username u) (u_is_admin u)) # new"
           "list_all (\<lambda>p. p = (ws, Ev_history (fetch_history (db st) 80)) \<or>
                          wire_type (snd p) = ''presence'') new"
        by blast
      have "\<forall>w ms. (w, Ev_history ms) \<in> set ((ws, Ev_login_ok (u_username u) (u_is_admin u)) # new)
              \<longrightarrow> w = ws \<and> ms = fetch_history (db st) 80"
        using r(3) by (auto simp: list_all_iff)
      moreover from hf r(1) have "handle_frame k env ws (Some (JObj msg)) st = Some (out, st')"
        by simp
      ultimately show ?thesis using r(2) by blast
    qed
  qed
qed

text \<open>
  Claim C5. For every \<open>limit\<close>, \<open>fetch_history\<close> returns its messages by ascending id
  (oldest first), at most \<open>max(1, min(200, limit))\<close> of them, and they are the last ones
  of the joined rows of room general in the order of their ids: the most recent. The
  \<open>login\<close> branch asks for 80: whatever a \<open>login\<close> frame makes the handler send, every
  \<open>history\<close> event among it goes to the sender and carries \<open>fetch_history\<close> of the
  database with limit 80, so no more than 80 messages.
\<close>

theorem fetch_history_capped_oldest_first:
  "sorted (map msg_id (fetch_history d limit)) \<and>
   length (fetch_history d limit) \<le> nat (max 1 (min 200 limit)) \<and>
   fetch_history d limit =
     map history_entry
       (drop (length (history_rows d) - nat (max 1 (min 200 limit)))
          (sort_key (\<lambda>r. m_id (fst r)) (history_rows d))) \<and>
   (dict_get msg ''type'' = JStr ''login'' \<and> card (set (CONNS st)) < k \<longrightarrow>
      (\<exists>out st' new. handle_frame k env ws (Some (JObj msg)) st = Some (out, st') \<and>
           sent st' = sent st @ new \<and>
           (\<forall>w ms. (w, Ev_history ms) \<in> set new \<longrightarrow>
                    w = ws \<and> ms = fetch_history (db st) 80 \<and> length ms \<le> 80)))"
proof -
  have l80: "length (fetch_history (db st) 80) \<le> 80"
    using fetch_history_length[of "db st" 80] by simp
  have "\<exists>out st' new. handle_frame k env ws (Some (JObj msg)) st = Some (out, st') \<and>
           sent st' = sent st @ new \<and>
           (\<forall>w ms. (w, Ev_history ms) \<in> set new \<longrightarrow>
                    w = ws \<and> ms = fetch_history (db st) 80 \<and> length ms \<le> 80)"
    if "dict_get msg ''type'' = JStr ''login''" "card (set (CONNS st)) < k"
  proof -
    from login_sends[OF that, of env ws] obtain out st' new where
      r: "handle_frame k env ws (Some (JObj msg)) st = Some (out, st')" "sent st' = sent st @ new"
         "\<forall>w ms. (w, Ev_history ms) \<in> set new \<longrightarrow> w = ws \<and> ms = fetch_history (db st) 80"
      by blast
    from r(3) l80 have "\<forall>w ms. (w, Ev_history ms) \<in> set new \<longrightarrow>
                    w = ws \<and> ms = fetch_history (db st) 80 \<and> length ms \<le> 80"
      by blast
    with r(1,2) show ?thesis by blast
  qed
  with fetch_history_sorted[of d limit] fetch_history_length[of d limit]
       fetch_history_eq[of d limit]
  show ?thesis by blast
qed



theorem fetch_history_capped_oldest_first_witness:
  "map msg_id (fetch_history example_db 2) = [2, 3] \<and>
   sorted (map msg_id (fetch_history example_db 2)) \<and>
   length (fetch_history example_db 2) \<le> nat (max 1 (min 200 2)) \<and>
   map msg_id (fetch_history example_db 0) = [3] \<and>
   dict_get example_login ''type'' = JStr ''login'' \<and>
   card (set (CONNS example_server)) < 4 \<and>
   (\<exists>out st' new. handle_frame 4 example_env 1 (Some (JObj example_login)) example_server
                     = Some (out, st') \<and>
        sent st' = sent example_server @ new \<and>
        (1, Ev_history (fetch_history example_db 80)) \<in> set new \<and>
        length (fetch_history example_db 80) = 3)"
proof -
  have a: "map msg_id (fetch_history example_db 2) = [2, 3]" by code_simp
  have b: "map msg_id (fetch_history example_db 0) = [3]" by code_simp
  have c: "dict_get example_login ''type'' = JStr ''login''"
    by (simp add: example_login_def dict_get_def)
  have d: "card (set (CONNS example_server)) < 4" by (simp add: example_server_def)
  have e: "length (fetch_history example_db 80) = 3" by code_simp
  have f: "sent_after (handle_frame 4 example_env 1 (Some (JObj example_login)) example_server) ! 1
             = (1, Ev_history (fetch_history example_db 80))"
    by code_simp
  have g: "length (sent_after (handle_frame 4 example_env 1 (Some (JObj example_login)) example_server)) = 7"
    by code_simp
  note t = fetch_history_capped_oldest_first[of example_db 2 example_login example_server 4 example_env 1]
  from t have s: "sorted (map msg_id (fetch_history example_db 2))"
    and l: "length (fetch_history example_db 2) \<le> nat (max 1 (min 200 2))"
    by blast+
  from t c d obtain out st' new where
    h: "handle_frame 4 example_env 1 (Some (JObj example_login)) example_server = Some (out, st')"
       "sent st' = sent example_server @ new"
    by blast
  have se: "sent example_server = []" by (simp add: example_server_def)
  from h se have "sent_after (handle_frame 4 example_env 1 (Some (JObj example_login)) example_server) = new"
    by (simp add: sent_after_def)
  with f g have n: "new ! 1 = (1, Ev_history (fetch_history example_db 80))" "1 < length new"
    by simp_all
  from nth_mem[OF n(2)] n(1) have "(1, Ev_history (fetch_history example_db 80)) \<in> set new"
    by simp
  with a b c d e s l h show ?thesis by blast
qed

section \<open>The handler: send\<close>

lemma coerce_kind_cases: "coerce_kind kind = ''text'' \<or> coerce_kind kind = ''sticker''"
  by (simp add: coerce_kind_def Let_def)

lemma on_send_outcomes:
  assumes "py_strip (py_or (dict_get msg ''kind'') (JStr ''text'')) = Inr kind0"
    and "card (set (CONNS st)) < k"
  shows "\<exists>out st'. on_send k env ws (Authed uid name adm) msg st = Some (out, st') \<and>
     (case send_try env (db st) uid (py_or (dict_get msg ''content'') (JStr [])) (lower kind0)
             (dict_get msg ''sticker'') (dict_get msg ''reply_to'') of
        Inl e \<Rightarrow> st' = st\<lparr>sent := sent st @ [(ws, Ev_send_failed e)]\<rparr>
      | Inr (base, d) \<Rightarrow>
          out = Continue \<and>
          (\<exists>D new. shrunk D (st\<lparr>db := d\<rparr>) st' \<and>
             sent st' = sent st @ map (\<lambda>w. (w, Ev_message (full_message uid name base))) (CONNS st)
                          @ new \<and>
             presence_only new))"
proof (cases "send_try env (db st) uid (py_or (dict_get msg ''content'') (JStr [])) (lower kind0)
             (dict_get msg ''sticker'') (dict_get msg ''reply_to'')")
  case (Inl e)
  with assms(1) show ?thesis by (simp add: on_send_def send_json_def)
next
  case (Inr p)
  obtain base d where p: "p = (base, d)" by (cases p)
  let ?ev = "Ev_message (full_message uid name base)"
  have "card (set (CONNS (st\<lparr>db := d\<rparr>))) < k" using assms(2) by simp
  with broadcast_enough_fuel(1)[of "st\<lparr>db := d\<rparr>" k env ?ev] obtain st' where
    b: "broadcast k env ?ev (st\<lparr>db := d\<rparr>) = Some st'" by blast
  from broadcast_frame(1)[of k env ?ev "st\<lparr>db := d\<rparr>" st'] b obtain D new where
    d: "shrunk D (st\<lparr>db := d\<rparr>) st'"
       "sent st' = sent st @ map (\<lambda>w. (w, ?ev)) (CONNS st) @ new" "presence_only new"
    by auto
  have "on_send k env ws (Authed uid name adm) msg st = Some (Continue, st')"
    using assms(1) Inr p b by (simp add: on_send_def)
  with d Inr p show ?thesis by auto
qed

text \<open>
  Claim C2 fails on the code for a \<open>send\<close> frame whose \<open>kind\<close> is a JSON value that is
  true but no string: \<open>.strip()\<close> is applied to it before the \<open>try\<close>, the
  \<open>AttributeError\<close> leaves the loop, and the sender gets no \<open>error\<close> reply while no
  \<open>message\<close> is broadcast. In the run of \<open>handler\<close> below, connection 4 logs in as
  alice, sends such a frame and then a valid one: the \<open>finally\<close> removes the
  connection, and nothing but login replies and presence events was sent.
\<close>

theorem non_string_kind_raises:
  "session_after 1 (Some (Continue, example_server)) = Some (Authed 1 ''alice'' False) \<and>
   dict_get example_bad_send ''type'' = JStr ''send'' \<and>
   dict_get example_bad_send ''kind'' = JInt 5 \<and>
   handle_frame 4 example_env 1 (Some (JObj example_bad_send)) example_server
     = Some (Raise (AttributeError ''object has no attribute strip''), example_server) \<and>
   sent_after (handler 5 example_env 4
                 [Some (JObj example_alice_login), Some (JObj example_bad_send),
                  Some (JObj example_send)] example_server) =
     [(4, Ev_login_ok ''alice'' False),
      (4, Ev_history (fetch_history example_db 80)),
      (1, Ev_presence [''alice'', ''Bob'']), (2, Ev_presence [''alice'', ''Bob'']),
      (3, Ev_presence [''alice'', ''Bob'']), (4, Ev_presence [''alice'', ''Bob'']),
      (1, Ev_presence [''alice'']), (3, Ev_presence [''alice'']), (4, Ev_presence [''alice'']),
      (1, Ev_presence [''alice'']), (3, Ev_presence [''alice''])]"
  by code_simp

section \<open>Presence: the states the program reaches\<close>

lemma set_update_subset: "set (AList.update k v al) \<subseteq> insert (k, v) (set al)"
  by (induction al) auto

lemma set_delete_subset: "set (AList.delete k al) \<subseteq> set al"
  by (auto simp: AList.delete_eq)

lemma create_user_named:
  assumes "create_user env d username password adm act = Inr (pk, d')" and "named_users d"
  shows "named_users d'"
proof -
  from assms(1) have len: "3 \<le> length (strip username)"
    by (auto simp: create_user_def Let_def split: if_splits sum.splits)
  from assms(1) obtain row where "users d' = users d @ [row]" "u_username row = strip username"
    by (auto simp: create_user_def Let_def split: if_splits sum.splits)
  with len assms(2) show ?thesis by (auto simp: named_users_def)
qed

lemma authenticate_in_users:
  "authenticate cr d username password = Some u \<Longrightarrow> u \<in> set (users d)"
  by (auto simp: authenticate_def get_user_by_username_def find_Some_iff
           split: option.splits if_splits)

lemma named_sessions_update:
  assumes "named_sessions st" and "case s of Unauthed \<Rightarrow> True | Authed uid name adm \<Rightarrow> name \<noteq> []"
  shows "named_sessions (st\<lparr>SESSIONS := AList.update ws s (SESSIONS st)\<rparr>)"
  using assms set_update_subset[of ws s "SESSIONS st"]
  by (auto simp: named_sessions_def list_all_iff)

lemma named_sessions_delete:
  assumes "named_sessions st"
  shows "named_sessions (st\<lparr>SESSIONS := AList.delete ws (SESSIONS st)\<rparr>)"
  using assms set_delete_subset[of ws "SESSIONS st"]
  by (auto simp: named_sessions_def list_all_iff)

lemma apply_op_invariant:
  assumes "distinct (map fst (SESSIONS st))" "named_users (db st)" "named_sessions st"
  shows "distinct (map fst (SESSIONS (apply_op env op st))) \<and>
         named_users (db (apply_op env op st)) \<and> named_sessions (apply_op env op st)"
proof (cases op)
  case (Register ws)
  have "named_sessions (st\<lparr>SESSIONS := AList.update ws Unauthed (SESSIONS st)\<rparr>)"
    by (rule named_sessions_update[OF assms(3)]) simp
  then have "named_sessions (register ws st)"
    by (simp add: register_def named_sessions_def)
  with assms Register show ?thesis by (simp add: register_def distinct_update)
next
  case (Login ws username password)
  show ?thesis
  proof (cases "authenticate (crypto_of env) (db st) username password")
    case None
    with assms Login show ?thesis by simp
  next
    case (Some u)
    from authenticate_in_users[OF Some] assms(2) have "u_username u \<noteq> []"
      by (auto simp: named_users_def list_all_iff)
    then have "named_sessions (set_session ws u st)"
      unfolding set_session_def by (intro named_sessions_update[OF assms(3)]) simp
    with assms Login Some show ?thesis by (simp add: set_session_def distinct_update)
  qed
next
  case (Unregister ws)
  have "named_sessions (st\<lparr>SESSIONS := AList.delete ws (SESSIONS st)\<rparr>)"
    by (rule named_sessions_delete[OF assms(3)])
  then have "named_sessions (unregister ws st)"
    by (simp add: unregister_def named_sessions_def)
  with assms Unregister show ?thesis by (simp add: unregister_def distinct_delete)
next
  case (Create_user username password adm)
  show ?thesis
  proof (cases "create_user env (db st) username password adm True")
    case (Inl e)
    with assms Create_user show ?thesis by simp
  next
    case (Inr r)
    obtain pk d where r: "r = (pk, d)" by (cases r)
    from create_user_named[OF Inr[unfolded r] assms(2)] have "named_users d" .
    with assms Create_user Inr r show ?thesis by (simp add: named_sessions_def)
  qed
qed

lemma foldl_apply_invariant:
  assumes "distinct (map fst (SESSIONS st))" "named_users (db st)" "named_sessions st"
  shows "distinct (map fst (SESSIONS (foldl (\<lambda>st op. apply_op env op st) st ops))) \<and>
         named_sessions (foldl (\<lambda>st op. apply_op env op st) st ops)"
  using assms
proof (induction ops arbitrary: st)
  case Nil
  then show ?case by simp
next
  case (Cons op ops)
  from apply_op_invariant[OF Cons.prems, of env op]
  have "distinct (map fst (SESSIONS (apply_op env op st)))"
    "named_users (db (apply_op env op st))" "named_sessions (apply_op env op st)"
    by simp_all
  from Cons.IH[OF this] show ?case by simp
qed

lemma run_ops_invariant:
  "distinct (map fst (SESSIONS (run_ops env ops))) \<and> named_sessions (run_ops env ops)"
  unfolding run_ops_def
  by (rule foldl_apply_invariant) (simp_all add: new_server_def named_users_def named_sessions_def)

text \<open>
  Claim C1. Start from a new database and no connection, and apply any sequence of
  register, login (which authenticates when \<open>authenticate\<close> returns a row), unregister
  and \<open>create_user\<close> operations. Then \<open>online_usernames\<close> has no duplicates, is sorted by
  the lower-case form of its entries, and holds exactly the usernames of the sessions whose
  \<open>authed\<close> flag is true: every user row was made by \<open>create_user\<close>, so no session's
  username is empty and the guard \<open>s.get("username")\<close> leaves none out.
\<close>

theorem online_usernames_snapshot:
  "distinct (online_usernames (run_ops env ops)) \<and>
   sorted (map lower (online_usernames (run_ops env ops))) \<and>
   set (online_usernames (run_ops env ops)) =
     {name. \<exists>ws uid adm. map_of (SESSIONS (run_ops env ops)) ws = Some (Authed uid name adm)}"
proof -
  let ?st = "run_ops env ops"
  from run_ops_invariant[of env ops] have dist: "distinct (map fst (SESSIONS ?st))"
    and named: "named_sessions ?st" by simp_all
  have 1: "distinct (online_usernames ?st)" by (simp add: online_usernames_def)
  have 2: "sorted (map lower (online_usernames ?st))" by (simp add: online_usernames_def)
  have "set (online_usernames ?st) = set (online_names (SESSIONS ?st))"
    by (simp add: online_usernames_def)
  also have "\<dots> = {name. name \<noteq> [] \<and> (\<exists>ws uid adm. (ws, Authed uid name adm) \<in> set (SESSIONS ?st))}"
    by (rule set_online_names)
  also have "\<dots> = {name. \<exists>ws uid adm. (ws, Authed uid name adm) \<in> set (SESSIONS ?st)}"
    using named by (fastforce simp: named_sessions_def list_all_iff)
  also have "\<dots> = {name. \<exists>ws uid adm. map_of (SESSIONS ?st) ws = Some (Authed uid name adm)}"
    using dist by (auto dest: map_of_SomeD)
  finally show ?thesis using 1 2 by blast
qed

theorem online_usernames_snapshot_witness:
  "online_usernames (run_ops example_env example_ops) =
     [''alice'', ''Bob'', [CHR 0xE9, CHR ''a'', CHR ''b''], [CHR 0xC9, CHR ''b'', CHR ''c'']] \<and>
   SESSIONS (run_ops example_env example_ops) =
     [(1, Authed 3 [CHR 0xC9, CHR ''b'', CHR ''c''] False), (2, Authed 2 ''Bob'' True),
      (4, Authed 1 ''alice'' False), (5, Authed 4 [CHR 0xE9, CHR ''a'', CHR ''b''] False),
      (6, Unauthed)] \<and>
   distinct (online_usernames (run_ops example_env example_ops)) \<and>
   sorted (map lower (online_usernames (run_ops example_env example_ops))) \<and>
   set (online_usernames (run_ops example_env example_ops)) =
     {name. \<exists>ws uid adm. map_of (SESSIONS (run_ops example_env example_ops)) ws
                            = Some (Authed uid name adm)}"
proof -
  have a: "online_usernames (run_ops example_env example_ops) =
     [''alice'', ''Bob'', [CHR 0xE9, CHR ''a'', CHR ''b''], [CHR 0xC9, CHR ''b'', CHR ''c'']]"
    by code_simp
  have b: "SESSIONS (run_ops example_env example_ops) =
     [(1, Authed 3 [CHR 0xC9, CHR ''b'', CHR ''c''] False), (2, Authed 2 ''Bob'' True),
      (4, Authed 1 ''alice'' False), (5, Authed 4 [CHR 0xE9, CHR ''a'', CHR ''b''] False),
      (6, Unauthed)]"
    by code_simp
  from online_usernames_snapshot[of example_env example_ops] a b show ?thesis by blast
qed

section \<open>The handler: a second login\<close>










section \<open>The handler: what a send frame is refused for\<close>

lemma py_or_idem: "py_or (py_or x (JStr [])) (JStr []) = py_or x (JStr [])"
  by (simp add: py_or_def)

lemma py_strip_text_of:
  "py_strip (py_or x (JStr [])) =
     (case text_of x of
        None \<Rightarrow> Inl (AttributeError ''object has no attribute strip'')
      | Some s \<Rightarrow> Inr (strip s))"
  by (cases "py_or x (JStr [])") (simp_all add: text_of_def)

lemma py_strip_stripped:
  "text_of x \<noteq> None \<Longrightarrow> py_strip (py_or x (JStr [])) = Inr (stripped x)"
  by (auto simp: py_strip_text_of stripped_def)

lemma py_strip_no_text:
  "text_of x = None \<Longrightarrow> \<exists>e. py_strip (py_or x (JStr [])) = Inl e"
  by (simp add: py_strip_text_of)

lemma send_try_refused:
  assumes "send_refused env d uid kind content sticker reply_to"
  shows "\<exists>e. send_try env d uid (py_or content (JStr [])) kind sticker reply_to = Inl e"
proof (cases "reply_to \<noteq> JNull \<and> reply_of reply_to = None")
  case True
  then show ?thesis
    by (cases "py_int reply_to") (auto simp: send_try_def reply_of_def)
next
  case noreply: False
  then have conv: "(if reply_to \<noteq> JNull then map_sum id Some (py_int reply_to) else Inr None)
                 = Inr (if reply_to = JNull then None else reply_of reply_to)"
    by (cases "py_int reply_to") (auto simp: reply_of_def)
  let ?r = "if reply_to = JNull then None else reply_of reply_to"
  have st: "send_try env d uid (py_or content (JStr [])) kind sticker reply_to
          = insert_message env d uid (py_or content (JStr [])) kind sticker ?r"
    by (simp add: send_try_def conv)
  show ?thesis
  proof (cases "text_of content")
    case None
    from py_strip_no_text[OF None] obtain e where "py_strip (py_or content (JStr [])) = Inl e" ..
    then show ?thesis by (simp add: st insert_message_def py_or_idem Let_def)
  next
    case (Some c)
    then have pc: "py_strip (py_or content (JStr [])) = Inr (stripped content)"
      by (intro py_strip_stripped) simp
    show ?thesis
    proof (cases "(coerce_kind kind = ''text'' \<and> stripped content = []) \<or>
                  2000 < length (stripped content)")
      case True
      then show ?thesis by (auto simp: st insert_message_def py_or_idem pc Let_def)
    next
      case c_ok: False
      show ?thesis
      proof (cases "coerce_kind kind = ''sticker''")
        case sticker: True
        show ?thesis
        proof (cases "text_of sticker")
          case None
          from py_strip_no_text[OF None] obtain e where "py_strip (py_or sticker (JStr [])) = Inl e" ..
          with c_ok sticker show ?thesis by (auto simp: st insert_message_def py_or_idem pc Let_def)
        next
          case (Some s)
          then have ps: "py_strip (py_or sticker (JStr [])) = Inr (stripped sticker)"
            by (intro py_strip_stripped) simp
          show ?thesis
          proof (cases "stripped sticker = []")
            case True
            with c_ok sticker show ?thesis
              by (auto simp: st insert_message_def py_or_idem pc ps Let_def)
          next
            case False
            with assms noreply c_ok sticker Some \<open>text_of content = Some c\<close>
            have "execute_raises env (send_row env d uid kind content sticker reply_to)"
              by (auto simp: send_refused_def)
            with c_ok sticker False show ?thesis
              by (auto simp: st insert_message_def py_or_idem pc ps send_row_def Let_def)
          qed
        qed
      next
        case no_sticker: False
        with assms noreply c_ok \<open>text_of content = Some c\<close>
        have "execute_raises env (send_row env d uid kind content sticker reply_to)"
          by (auto simp: send_refused_def)
        with c_ok no_sticker show ?thesis
          by (auto simp: st insert_message_def py_or_idem pc send_row_def Let_def)
      qed
    qed
  qed
qed

lemma send_try_accepted:
  assumes "\<not> send_refused env d uid kind content sticker reply_to"
  shows "send_try env d uid (py_or content (JStr [])) kind sticker reply_to =
           Inr ((send_row env d uid kind content sticker reply_to)
                   \<lparr>m_created_at := now_iso env (length (messages d))\<rparr>,
                d\<lparr>messages := messages d @ [send_row env d uid kind content sticker reply_to]\<rparr>)"
proof -
  from assms have noreply: "\<not> (reply_to \<noteq> JNull \<and> reply_of reply_to = None)"
    and tc: "text_of content \<noteq> None"
    and c_ok: "\<not> (coerce_kind kind = ''text'' \<and> stripped content = [])"
              "\<not> 2000 < length (stripped content)"
    and s_ok: "coerce_kind kind = ''sticker'' \<longrightarrow> text_of sticker \<noteq> None \<and> stripped sticker \<noteq> []"
    and ex: "\<not> execute_raises env (send_row env d uid kind content sticker reply_to)"
    by (auto simp: send_refused_def)
  from noreply have conv: "(if reply_to \<noteq> JNull then map_sum id Some (py_int reply_to) else Inr None)
                 = Inr (if reply_to = JNull then None else reply_of reply_to)"
    by (cases "py_int reply_to") (auto simp: reply_of_def)
  have pc: "py_strip (py_or content (JStr [])) = Inr (stripped content)"
    using tc by (rule py_strip_stripped)
  show ?thesis
  proof (cases "coerce_kind kind = ''sticker''")
    case True
    with s_ok have ps: "py_strip (py_or sticker (JStr [])) = Inr (stripped sticker)"
      by (intro py_strip_stripped) simp
    from True s_ok c_ok ex show ?thesis
      by (simp add: send_try_def conv insert_message_def py_or_idem pc ps send_row_def Let_def)
  next
    case False
    with c_ok ex show ?thesis
      by (simp add: send_try_def conv insert_message_def py_or_idem pc send_row_def Let_def)
  qed
qed

text \<open>
  Claim C4, as amended. A \<open>send\<close> frame of an authenticated session, with a \<open>kind\<close> that
  is absent, null or a string, is answered with one \<open>error\<close> reply to the sender, and
  nothing is stored or broadcast, exactly when \<open>send_refused\<close> holds: \<open>reply_to\<close> is
  given and \<open>int\<close> cannot convert it; or the content is a true value that is no string;
  or, with \<open>coerce_kind\<close> deciding the kind (every kind other than \<open>sticker\<close> is
  \<open>text\<close>), the kind is text and the stripped content is empty; or the stripped content
  is longer than 2000; or the kind is sticker and the sticker is a true value that is no
  string, or is empty when stripped; or the database refuses the row. In every other case
  the row \<open>send_row\<close> is stored and the message is sent to every registered connection,
  followed by presence events only. (A \<open>kind\<close> that is true and no string raises before
  the \<open>try\<close>: nothing is sent and nothing changes.)
\<close>

theorem send_rejected_iff:
  assumes "map_of (SESSIONS st) ws = Some (Authed uid name adm)"
    and "dict_get msg ''type'' = JStr ''send''"
    and "card (set (CONNS st)) < k"
  shows "\<exists>out st'. handle_frame k env ws (Some (JObj msg)) st = Some (out, st') \<and>
     (case py_strip (py_or (dict_get msg ''kind'') (JStr ''text'')) of
        Inl e \<Rightarrow> out = Raise e \<and> st' = st
      | Inr kind0 \<Rightarrow>
          (let row = send_row env (db st) uid (lower kind0) (dict_get msg ''content'')
                       (dict_get msg ''sticker'') (dict_get msg ''reply_to'')
           in if send_refused env (db st) uid (lower kind0) (dict_get msg ''content'')
                   (dict_get msg ''sticker'') (dict_get msg ''reply_to'')
              then (\<exists>e. sent st' = sent st @ [(ws, Ev_send_failed e)]) \<and>
                   db st' = db st \<and> SESSIONS st' = SESSIONS st \<and> CONNS st' = CONNS st
              else db st' = (db st)\<lparr>messages := messages (db st) @ [row]\<rparr> \<and>
                   m_kind row = coerce_kind (lower kind0) \<and>
                   (\<exists>new. sent st' = sent st
                             @ map (\<lambda>w. (w, Ev_message (full_message uid name
                                      (row\<lparr>m_created_at := now_iso env (length (messages (db st)))\<rparr>))))
                                 (CONNS st)
                             @ new \<and>
                          presence_only new)))"
proof -
  have hf: "handle_frame k env ws (Some (JObj msg)) st = on_send k env ws (Authed uid name adm) msg st"
    using assms(2) require_authed_Inr[OF assms(1)] by (simp add: handle_frame_def)
  show ?thesis
  proof (cases "py_strip (py_or (dict_get msg ''kind'') (JStr ''text''))")
    case (Inl e)
    then have "on_send k env ws (Authed uid name adm) msg st = Some (Raise e, st)"
      by (simp add: on_send_def)
    with hf Inl show ?thesis by simp
  next
    case (Inr kind0)
    let ?content = "dict_get msg ''content''" and ?sticker = "dict_get msg ''sticker''"
      and ?reply = "dict_get msg ''reply_to''"
    let ?row = "send_row env (db st) uid (lower kind0) ?content ?sticker ?reply"
    from on_send_outcomes[OF Inr assms(3), of env ws uid name adm] obtain out st' where
      os: "on_send k env ws (Authed uid name adm) msg st = Some (out, st')" and
      c: "(case send_try env (db st) uid (py_or ?content (JStr [])) (lower kind0) ?sticker ?reply of
          Inl e \<Rightarrow> st' = st\<lparr>sent := sent st @ [(ws, Ev_send_failed e)]\<rparr>
        | Inr (base, d) \<Rightarrow>
            out = Continue \<and>
            (\<exists>D new. shrunk D (st\<lparr>db := d\<rparr>) st' \<and>
               sent st' = sent st @ map (\<lambda>w. (w, Ev_message (full_message uid name base))) (CONNS st)
                            @ new \<and>
               presence_only new))"
      by blast
    have h: "handle_frame k env ws (Some (JObj msg)) st = Some (out, st')" using hf os by simp
    show ?thesis
    proof (cases "send_refused env (db st) uid (lower kind0) ?content ?sticker ?reply")
      case True
      from send_try_refused[OF True] obtain e where
        "send_try env (db st) uid (py_or ?content (JStr [])) (lower kind0) ?sticker ?reply = Inl e" ..
      with c have "st' = st\<lparr>sent := sent st @ [(ws, Ev_send_failed e)]\<rparr>" by simp
      then have "(\<exists>e. sent st' = sent st @ [(ws, Ev_send_failed e)]) \<and>
                   db st' = db st \<and> SESSIONS st' = SESSIONS st \<and> CONNS st' = CONNS st"
        by simp
      with h True Inr show ?thesis by (auto simp: Let_def)
    next
      case False
      from send_try_accepted[OF False] c obtain D new where
        d: "shrunk D (st\<lparr>db := (db st)\<lparr>messages := messages (db st) @ [?row]\<rparr>\<rparr>) st'"
           "sent st' = sent st
              @ map (\<lambda>w. (w, Ev_message (full_message uid name
                       (?row\<lparr>m_created_at := now_iso env (length (messages (db st)))\<rparr>))))
                  (CONNS st)
              @ new"
           "presence_only new"
        by auto
      from d(1) have 1: "db st' = (db st)\<lparr>messages := messages (db st) @ [?row]\<rparr>"
        by (simp add: shrunk_def)
      have 2: "m_kind ?row = coerce_kind (lower kind0)"
        by (simp add: send_row_def insert_values_def)
      from d(2,3) have 3: "\<exists>new. sent st' = sent st
              @ map (\<lambda>w. (w, Ev_message (full_message uid name
                       (?row\<lparr>m_created_at := now_iso env (length (messages (db st)))\<rparr>))))
                  (CONNS st)
              @ new \<and> presence_only new"
        by blast
      from h False Inr 1 2 3 show ?thesis by (auto simp: Let_def)
    qed
  qed
qed

theorem send_rejected_iff_witness:
  "map_of (SESSIONS example_server) 1 = Some (Authed 1 ''alice'' False) \<and>
   card (set (CONNS example_server)) < 4 \<and>
   dict_get example_send ''type'' = JStr ''send'' \<and>
   py_strip (py_or (dict_get example_send ''kind'') (JStr ''text'')) = Inr ''image'' \<and>
   \<not> send_refused example_env (db example_server) 1 (lower ''image'')
       (dict_get example_send ''content'') (dict_get example_send ''sticker'')
       (dict_get example_send ''reply_to'') \<and>
   coerce_kind (lower ''image'') = ''text'' \<and>
   (\<exists>out st' row new.
      handle_frame 4 example_env 1 (Some (JObj example_send)) example_server = Some (out, st') \<and>
      db st' = (db example_server)\<lparr>messages := messages (db example_server) @ [row]\<rparr> \<and>
      m_kind row = ''text'' \<and>
      sent st' = sent example_server
                   @ map (\<lambda>w. (w, Ev_message example_message)) (CONNS example_server)
                   @ new \<and>
      presence_only new) \<and>
   dict_get example_blank_send ''type'' = JStr ''send'' \<and>
   py_strip (py_or (dict_get example_blank_send ''kind'') (JStr ''text'')) = Inr ''text'' \<and>
   send_refused example_env (db example_server) 1 (lower ''text'')
       (dict_get example_blank_send ''content'') (dict_get example_blank_send ''sticker'')
       (dict_get example_blank_send ''reply_to'') \<and>
   (\<exists>out st' e.
      handle_frame 4 example_env 1 (Some (JObj example_blank_send)) example_server
        = Some (out, st') \<and>
      sent st' = sent example_server @ [(1, Ev_send_failed e)] \<and>
      db st' = db example_server \<and> SESSIONS st' = SESSIONS example_server \<and>
      CONNS st' = CONNS example_server)"
proof -
  have a: "map_of (SESSIONS example_server) 1 = Some (Authed 1 ''alice'' False)"
    by (simp add: example_server_def)
  have h: "card (set (CONNS example_server)) < 4"
    by (simp add: example_server_def)
  have b: "dict_get example_send ''type'' = JStr ''send''"
    by (simp add: example_send_def dict_get_def)
  have c: "py_strip (py_or (dict_get example_send ''kind'') (JStr ''text'')) = Inr ''image''"
    by code_simp
  have d: "\<not> send_refused example_env (db example_server) 1 (lower ''image'')
       (dict_get example_send ''content'') (dict_get example_send ''sticker'')
       (dict_get example_send ''reply_to'')"
    by code_simp
  have i: "coerce_kind (lower ''image'') = ''text''" by code_simp
  have m: "full_message 1 ''alice''
             ((send_row example_env (db example_server) 1 (lower ''image'')
                 (dict_get example_send ''content'') (dict_get example_send ''sticker'')
                 (dict_get example_send ''reply_to''))
              \<lparr>m_created_at := now_iso example_env (length (messages (db example_server)))\<rparr>)
           = example_message"
    by code_simp
  from send_rejected_iff[OF a b h, of example_env] c d i m
  have 1: "\<exists>out st' row new.
      handle_frame 4 example_env 1 (Some (JObj example_send)) example_server = Some (out, st') \<and>
      db st' = (db example_server)\<lparr>messages := messages (db example_server) @ [row]\<rparr> \<and>
      m_kind row = ''text'' \<and>
      sent st' = sent example_server
                   @ map (\<lambda>w. (w, Ev_message example_message)) (CONNS example_server)
                   @ new \<and>
      presence_only new"
    by (simp add: Let_def) metis
  have b': "dict_get example_blank_send ''type'' = JStr ''send''"
    by (simp add: example_blank_send_def dict_get_def)
  have c': "py_strip (py_or (dict_get example_blank_send ''kind'') (JStr ''text'')) = Inr ''text''"
    by code_simp
  have d': "send_refused example_env (db example_server) 1 (lower ''text'')
       (dict_get example_blank_send ''content'') (dict_get example_blank_send ''sticker'')
       (dict_get example_blank_send ''reply_to'')"
    by code_simp
  from send_rejected_iff[OF a b' h, of example_env] c' d'
  have 2: "\<exists>out st' e.
      handle_frame 4 example_env 1 (Some (JObj example_blank_send)) example_server
        = Some (out, st') \<and>
      sent st' = sent example_server @ [(1, Ev_send_failed e)] \<and>
      db st' = db example_server \<and> SESSIONS st' = SESSIONS example_server \<and>
      CONNS st' = CONNS example_server"
    by (simp add: Let_def)
  from a h b c d i 1 b' c' d' 2 show ?thesis by blast
qed

text \<open>
  The claim as stated fails in both directions. A frame with kind \<open>image\<close> is not
  rejected: it is stored and broadcast as a text message. A text frame with content
  \<open>hi\<close> passes every check the claim lists and is still answered with an error when
  its \<open>reply_to\<close> is \<open>"x"\<close>, or is an integer the database refuses.
\<close>

theorem unknown_kind_accepted_counterexample:
  "session_after 1 (Some (Continue, example_server)) = Some (Authed 1 ''alice'' False) \<and>
   dict_get example_send ''kind'' = JStr ''image'' \<and>
   sent_after (handle_frame 4 example_env 1 (Some (JObj example_send)) example_server) =
     [(1, Ev_message example_message), (2, Ev_message example_message),
      (3, Ev_message example_message),
      (1, Ev_presence [''alice'']), (3, Ev_presence [''alice''])] \<and>
   dict_get example_reply_send ''kind'' = JStr ''text'' \<and>
   dict_get example_reply_send ''content'' = JStr ''hi'' \<and>
   sent_after (handle_frame 4 example_env 1 (Some (JObj example_reply_send)) example_server) =
     [(1, Ev_send_failed (ValueError ''invalid literal for int() with base 10''))] \<and>
   sent_after (handle_frame 4 example_env 1 (Some (JObj example_big_reply_send)) example_server) =
     [(1, Ev_send_failed (DatabaseError ''INSERT failed''))]"
  by code_simp

end
